theory Spec2Isabelle
  imports Main "HOL-Library.Multiset" "HOL-Library.Product_Lexorder"
begin

chapter \<open>The Sudoku engine of \<^verbatim>\<open>main.py\<close>\<close>

text \<open>
  A shallow embedding of the puzzle engine in \<^verbatim>\<open>src/main.py\<close>: the grid generator
  \<^verbatim>\<open>SudokuGame.generate_sudoku\<close>, the session set up by \<^verbatim>\<open>create_game_board\<close> and
  \<^verbatim>\<open>SudokuMaster.new_game\<close>, the handlers \<^verbatim>\<open>cell_clicked\<close>, \<^verbatim>\<open>number_clicked\<close> and
  \<^verbatim>\<open>show_hint\<close> that mutate it, the observers \<^verbatim>\<open>_is_fully_solved\<close>, \<^verbatim>\<open>check_solution\<close>
  and \<^verbatim>\<open>get_filled_count\<close>, and \<^verbatim>\<open>save_game\<close> / \<^verbatim>\<open>load_game\<close>.

  Conventions.
  \<^item> Python integers are \<^typ>\<open>int\<close>. Loop indices drawn from \<^verbatim>\<open>range(n)\<close> are \<^typ>\<open>nat\<close>.
  \<^item> The random part of every call of \<^verbatim>\<open>random.sample\<close> is a parameter of the model:
    the order in which the call draws its population, of which it returns the first
    \<open>k\<close> elements (all of them for a shuffle). A predicate says which orders are possible.
  \<^item> A Python exception is a value of \<open>py_error\<close>. A handler returns the state as the
    exception left it, together with what it displayed.
  \<^item> Widget styling, the timer object, the score database and the file dialogs are
    not modelled; what a handler shows to the player is returned as a list of
    \<open>ui_event\<close>s.
\<close>

section \<open>Definitions\<close>

subsection \<open>Grid generator\<close>

text \<open>\<^verbatim>\<open>self.BASE = 3\<close>, \<^verbatim>\<open>self.SIDE = 9\<close>.\<close>

definition BASE :: nat where
  "BASE = 3"

definition SIDE :: nat where
  "SIDE = 9"

text \<open>\<^verbatim>\<open>return (self.BASE * (r % self.BASE) + r // self.BASE + c) % self.SIDE\<close>\<close>

definition pattern :: "nat \<Rightarrow> nat \<Rightarrow> nat" where
  "pattern r c = (BASE * (r mod BASE) + r div BASE + c) mod SIDE"

text \<open>
  \<^verbatim>\<open>shuffle(s)\<close> is \<^verbatim>\<open>random.sample(s, len(s))\<close>: some rearrangement of \<open>s\<close>.
  \<open>is_shuffle_of s out\<close> says that \<open>out\<close> is a possible result.
\<close>

definition is_shuffle_of :: "'a list \<Rightarrow> 'a list \<Rightarrow> bool" where
  "is_shuffle_of s out \<longleftrightarrow> mset out = mset s"

text \<open>\<^verbatim>\<open>r_base = range(self.BASE)\<close>\<close>

definition r_base :: "nat list" where
  "r_base = [0..<BASE]"

text \<open>
  The results of the random calls of one run of \<^verbatim>\<open>generate_sudoku\<close>. In the
  comprehension \<^verbatim>\<open>[g * BASE + r for g in shuffle(r_base) for r in shuffle(r_base)]\<close> the
  outer shuffle is drawn once and the inner one anew for every \<open>g\<close>: \<open>row_inner\<close>
  holds the inner results in the order they are drawn. Likewise for the columns.
\<close>

record shuffles =
  row_groups :: "nat list"
  row_inner :: "nat list list"
  col_groups :: "nat list"
  col_inner :: "nat list list"
  nums_shuffled :: "int list"

definition valid_shuffles :: "shuffles \<Rightarrow> bool" where
  "valid_shuffles sh \<longleftrightarrow>
     is_shuffle_of r_base (row_groups sh) \<and>
     length (row_inner sh) = BASE \<and> list_all (is_shuffle_of r_base) (row_inner sh) \<and>
     is_shuffle_of r_base (col_groups sh) \<and>
     length (col_inner sh) = BASE \<and> list_all (is_shuffle_of r_base) (col_inner sh) \<and>
     is_shuffle_of [1..int SIDE] (nums_shuffled sh)"

text \<open>\<^verbatim>\<open>[g * self.BASE + r for g in shuffle(r_base) for r in shuffle(r_base)]\<close>\<close>

definition band_lines :: "nat list \<Rightarrow> nat list list \<Rightarrow> nat list" where
  "band_lines groups inner =
     concat (map (\<lambda>(g, rs). map (\<lambda>r. g * BASE + r) rs) (zip groups inner))"

text \<open>
  \<^verbatim>\<open>nums = shuffle(list(range(1, self.SIDE + 1)))\<close>,
  \<^verbatim>\<open>board = np.array([[nums[pattern(r, c)] for c in cols] for r in rows])\<close>.
\<close>

definition generate_sudoku :: "shuffles \<Rightarrow> int list list" where
  "generate_sudoku sh =
     (let rows = band_lines (row_groups sh) (row_inner sh);
          cols = band_lines (col_groups sh) (col_inner sh);
          nums = nums_shuffled sh
      in map (\<lambda>r. map (\<lambda>c. nums ! pattern r c) cols) rows)"

text \<open>
  The Sudoku constraint, as the specification words it: a line holds every digit from 1
  to 9 exactly once; a grid is valid when its nine rows, nine columns and nine boxes do.
\<close>

definition has_all_digits :: "int list \<Rightarrow> bool" where
  "has_all_digits xs \<longleftrightarrow> mset xs = mset [1..9]"

definition grid_col :: "'a list list \<Rightarrow> nat \<Rightarrow> 'a list" where
  "grid_col g j = map (\<lambda>row. row ! j) g"

definition grid_box :: "'a list list \<Rightarrow> nat \<Rightarrow> nat \<Rightarrow> 'a list" where
  "grid_box g bi bj =
     concat (map (\<lambda>row. take 3 (drop (3 * bj) row)) (take 3 (drop (3 * bi) g)))"

definition is_valid_sudoku :: "int list list \<Rightarrow> bool" where
  "is_valid_sudoku g \<longleftrightarrow>
     length g = 9 \<and> list_all (\<lambda>row. length row = 9) g \<and>
     list_all has_all_digits g \<and>
     list_all (\<lambda>j. has_all_digits (grid_col g j)) [0..<9] \<and>
     list_all (\<lambda>bi. list_all (\<lambda>bj. has_all_digits (grid_box g bi bj)) [0..<3]) [0..<3]"

subsection \<open>Values, errors and indexing\<close>

text \<open>
  An entry of \<^verbatim>\<open>game_board\<close> is the empty string \<^verbatim>\<open>""\<close> or an integer. The argument
  of \<^verbatim>\<open>number_clicked\<close> has the same two forms.
\<close>

datatype cell = Blank | Num int

datatype py_error = IndexError | TypeError | AttributeError | ValueError

text \<open>
  Python's \<^verbatim>\<open>xs[i]\<close> on a sequence of length \<open>n\<close>: an index from \<open>-n\<close> to \<open>-1\<close>
  counts from the end, anything outside \<open>-n \<dots> n - 1\<close> raises \<^verbatim>\<open>IndexError\<close>.
\<close>

definition norm_index :: "nat \<Rightarrow> int \<Rightarrow> nat option" where
  "norm_index n i =
     (if 0 \<le> i \<and> i < int n then Some (nat i)
      else if - int n \<le> i \<and> i < 0 then Some (nat (int n + i))
      else None)"

text \<open>\<^verbatim>\<open>g[r][c]\<close> and \<^verbatim>\<open>g[r][c] = v\<close> for coordinates that come from outside.\<close>

definition grid_get :: "'a list list \<Rightarrow> int \<Rightarrow> int \<Rightarrow> py_error + 'a" where
  "grid_get g r c =
     (case norm_index (length g) r of
        None \<Rightarrow> Inl IndexError
      | Some i \<Rightarrow>
          (case norm_index (length (g ! i)) c of
             None \<Rightarrow> Inl IndexError
           | Some j \<Rightarrow> Inr (g ! i ! j)))"

definition grid_upd :: "'a list list \<Rightarrow> nat \<Rightarrow> nat \<Rightarrow> 'a \<Rightarrow> 'a list list" where
  "grid_upd g i j v = g[i := (g ! i)[j := v]]"

definition grid_set :: "'a list list \<Rightarrow> int \<Rightarrow> int \<Rightarrow> 'a \<Rightarrow> py_error + 'a list list" where
  "grid_set g r c v =
     (case norm_index (length g) r of
        None \<Rightarrow> Inl IndexError
      | Some i \<Rightarrow>
          (case norm_index (length (g ! i)) c of
             None \<Rightarrow> Inl IndexError
           | Some j \<Rightarrow> Inr (grid_upd g i j v)))"

text \<open>
  Inside the loops \<^verbatim>\<open>for i in range(9): for j in range(9)\<close> the arrays are read at
  indices below 9. The arrays are 9 by 9 wherever the program builds them
  (\<open>is_9x9\<close>), so these reads are written \<open>g ! i ! j\<close>.
\<close>

definition is_9x9 :: "'a list list \<Rightarrow> bool" where
  "is_9x9 g \<longleftrightarrow> length g = 9 \<and> list_all (\<lambda>row. length row = 9) g"

text \<open>\<^verbatim>\<open>all_cells = [(i, j) for i in range(9) for j in range(9)]\<close>: row-major order.\<close>

definition all_cells :: "(int \<times> int) list" where
  "all_cells = concat (map (\<lambda>i. map (\<lambda>j. (i, j)) [0..8]) [0..8])"

text \<open>\<^verbatim>\<open>g[i][j]\<close> for a pair \<open>(i, j)\<close> of such a loop.\<close>

definition cell_at :: "'a list list \<Rightarrow> int \<times> int \<Rightarrow> 'a" where
  "cell_at g p = g ! nat (fst p) ! nat (snd p)"

text \<open>
  \<^verbatim>\<open>str\<close> on the values the boards hold: decimal digits for an integer, with a minus
  sign when negative, and the empty string for \<^verbatim>\<open>""\<close>.
\<close>

definition digit_char :: "nat \<Rightarrow> char" where
  "digit_char d = char_of (48 + d)"

function str_nat :: "nat \<Rightarrow> string" where
  "str_nat n = (if n < 10 then [digit_char n] else str_nat (n div 10) @ [digit_char (n mod 10)])"
  by pat_completeness auto
termination
  by (relation "measure (\<lambda>n. n)") auto

declare str_nat.simps [simp del]

definition str_int :: "int \<Rightarrow> string" where
  "str_int i = (if i < 0 then CHR ''-'' # str_nat (nat (- i)) else str_nat (nat i))"

fun py_str :: "cell \<Rightarrow> string" where
  "py_str Blank = []"
| "py_str (Num n) = str_int n"

subsection \<open>State\<close>

text \<open>
  \<^verbatim>\<open>class SudokuGame\<close>. \<^verbatim>\<open>solution_board\<close> is \<^verbatim>\<open>None\<close> or a 9 by 9 integer array;
  \<^verbatim>\<open>immutable_cells\<close> is a set of tuples.
\<close>

record sudoku_game =
  solution_board :: "int list list option"
  game_board :: "cell list list"
  immutable_cells :: "(int \<times> int) set"
  mistakes :: int
  max_mistakes :: int
  hints_used :: int
  empty_cells :: int

text \<open>The two flags of a \<^verbatim>\<open>SudokuCell\<close> widget that \<^verbatim>\<open>save_game\<close> writes out.\<close>

record cell_flags =
  is_error :: bool
  is_hint :: bool

text \<open>
  \<^verbatim>\<open>class SudokuMaster\<close>: the game, the selection, the widget flags, the seconds counter
  and the timer flag.
\<close>

record master =
  game :: sudoku_game
  selected_cell :: "(int \<times> int) option"
  cells :: "cell_flags list list"
  seconds :: int
  is_timer_running :: bool

text \<open>What a handler shows: status-bar messages, message boxes, or an exception.\<close>

datatype ui_event =
    StatusNewGame
  | StatusSelected int int
  | StatusFixed
  | StatusSelectFirst
  | StatusCleared int int
  | StatusCorrect int int int
  | StatusIncorrect int int
  | WarningGameOver int
  | InfoSolved int
  | StatusHint int int int
  | StatusNoEmpty
  | InfoPerfect
  | WarningIncorrectCells "(int \<times> int) list"
  | CriticalMissingBoard
  | StatusLoaded
  | Raised py_error

definition no_flags :: cell_flags where
  "no_flags = \<lparr>is_error = False, is_hint = False\<rparr>"

text \<open>\<^verbatim>\<open>SudokuGame.__init__\<close>; \<^verbatim>\<open>game_board\<close> starts as \<^verbatim>\<open>None\<close> and is built by
  \<^verbatim>\<open>create_game_board\<close> before any handler reads it, here it starts as nine empty rows.\<close>

definition init_game :: sudoku_game where
  "init_game =
     \<lparr>solution_board = None, game_board = replicate 9 (replicate 9 Blank),
      immutable_cells = {}, mistakes = 0, max_mistakes = 5, hints_used = 0, empty_cells = 40\<rparr>"

definition init_master :: master where
  "init_master =
     \<lparr>game = init_game, selected_cell = None, cells = replicate 9 (replicate 9 no_flags),
      seconds = 0, is_timer_running = False\<rparr>"

subsection \<open>Creating a session\<close>

text \<open>
  \<^verbatim>\<open>random.sample(population, k)\<close> raises \<^verbatim>\<open>ValueError\<close> when \<open>k\<close> is negative or larger
  than the population; otherwise it returns \<open>k\<close> elements taken from distinct positions.
  \<open>drawn\<close> is the random part of the call: the order in which it would draw the whole
  population, a rearrangement of it (\<open>is_shuffle_of population drawn\<close>). The call returns
  the first \<open>k\<close> elements of that order; for \<open>k = len(population)\<close> this is \<^verbatim>\<open>shuffle\<close>.
\<close>

definition random_sample :: "'a list \<Rightarrow> int \<Rightarrow> 'a list \<Rightarrow> py_error + 'a list" where
  "random_sample population k drawn =
     (if k < 0 \<or> int (length population) < k then Inl ValueError
      else Inr (take (nat k) drawn))"

text \<open>\<^verbatim>\<open>for r, c in cells_to_empty: self.game_board[r][c] = ""\<close>\<close>

fun blank_cells :: "(int \<times> int) list \<Rightarrow> cell list list \<Rightarrow> cell list list" where
  "blank_cells [] b = b"
| "blank_cells ((r, c) # rest) b = blank_cells rest (grid_upd b (nat r) (nat c) Blank)"

text \<open>
  \<^verbatim>\<open>create_game_board(self, empty_cells=40)\<close>. \<open>sh\<close> and \<open>drawn\<close> are the random parts
  of \<^verbatim>\<open>generate_sudoku\<close> and of \<^verbatim>\<open>random.sample(all_cells, min(empty_cells, 81))\<close>. The
  solution and the full board are assigned before \<^verbatim>\<open>random.sample\<close> can raise.
\<close>

definition create_game_board ::
  "shuffles \<Rightarrow> (int \<times> int) list \<Rightarrow> int \<Rightarrow> sudoku_game \<Rightarrow> sudoku_game \<times> py_error option" where
  "create_game_board sh drawn n g =
     (let sol = generate_sudoku sh;
          g1 = g\<lparr>solution_board := Some sol, game_board := map (map Num) sol\<rparr>
      in case random_sample all_cells (min n 81) drawn of
           Inl e \<Rightarrow> (g1, Some e)
         | Inr cells_to_empty \<Rightarrow>
             (g1\<lparr>immutable_cells := set all_cells - set cells_to_empty,
                 game_board := blank_cells cells_to_empty (game_board g1),
                 empty_cells := n, mistakes := 0, hints_used := 0\<rparr>, None))"

datatype difficulty = Easy | Medium | Hard | Expert

text \<open>
  \<^verbatim>\<open>new_game\<close>: \<open>slider\<close> is \<^verbatim>\<open>self.sliderEmptyCells.value()\<close>, \<open>d\<close> the checked radio
  button. \<^verbatim>\<open>update_board\<close> clears the flags of every widget.
\<close>

definition adjusted_empty_cells :: "int \<Rightarrow> difficulty \<Rightarrow> int" where
  "adjusted_empty_cells slider d =
     (case d of
        Easy \<Rightarrow> min 60 (max 20 (slider - 5))
      | Hard \<Rightarrow> min 60 (max 20 (slider + 5))
      | Expert \<Rightarrow> min 60 (max 20 (slider + 10))
      | Medium \<Rightarrow> slider)"

definition new_game ::
  "int \<Rightarrow> difficulty \<Rightarrow> shuffles \<Rightarrow> (int \<times> int) list \<Rightarrow> master \<Rightarrow> master \<times> ui_event list" where
  "new_game slider d sh drawn s =
     (case create_game_board sh drawn (adjusted_empty_cells slider d) (game s) of
        (g, Some e) \<Rightarrow> (s\<lparr>game := g\<rparr>, [Raised e])
      | (g, None) \<Rightarrow>
          (s\<lparr>game := g\<lparr>mistakes := 0, hints_used := 0\<rparr>,
             cells := map (map (\<lambda>_. no_flags)) (cells s),
             selected_cell := None, seconds := 0, is_timer_running := False\<rparr>,
           [StatusNewGame]))"

subsection \<open>Observers\<close>

text \<open>
  \<^verbatim>\<open>SudokuMaster._is_fully_solved\<close>: false without a solution; otherwise every one of
  the 81 cells has the same \<^verbatim>\<open>str\<close> as the solution.
\<close>

definition cell_matches :: "cell list list \<Rightarrow> int list list \<Rightarrow> int \<times> int \<Rightarrow> bool" where
  "cell_matches b sol p =
     (py_str (cell_at b p) = str_int (cell_at sol p))"

definition is_fully_solved :: "master \<Rightarrow> bool" where
  "is_fully_solved s =
     (case solution_board (game s) of
        None \<Rightarrow> False
      | Some sol \<Rightarrow> list_all (cell_matches (game_board (game s)) sol) all_cells)"

text \<open>
  \<^verbatim>\<open>SudokuGame.check_solution\<close>. In the first cell that is not immutable the method
  evaluates \<^verbatim>\<open>self.game.game_board\<close>; a \<^verbatim>\<open>SudokuGame\<close> has no attribute \<^verbatim>\<open>game\<close>, so
  this raises \<^verbatim>\<open>AttributeError\<close>. With all 81 cells immutable it returns \<^verbatim>\<open>True\<close>.
\<close>

definition game_check_solution :: "sudoku_game \<Rightarrow> py_error + bool" where
  "game_check_solution g =
     (if list_all (\<lambda>p. p \<in> immutable_cells g) all_cells then Inr True else Inl AttributeError)"

text \<open>
  \<^verbatim>\<open>SudokuMaster.check_solution\<close>, the handler of the "Check Solution" button: the
  result, the list \<^verbatim>\<open>incorrect_cells\<close> it builds (empty on the path that does not build
  it) and what it shows. Without a solution, \<^verbatim>\<open>self.game.solution_board[i][j]\<close> raises
  \<^verbatim>\<open>TypeError\<close> at the first cell that is not immutable.
\<close>

definition incorrect_cells :: "sudoku_game \<Rightarrow> int list list \<Rightarrow> (int \<times> int) list" where
  "incorrect_cells g sol =
     filter (\<lambda>p. p \<notin> immutable_cells g \<and> \<not> cell_matches (game_board g) sol p) all_cells"

definition check_solution :: "master \<Rightarrow> py_error + (bool \<times> (int \<times> int) list \<times> ui_event list)" where
  "check_solution s =
     (if is_fully_solved s then Inr (True, [], [InfoPerfect])
      else
        (case solution_board (game s) of
           None \<Rightarrow>
             (if list_all (\<lambda>p. p \<in> immutable_cells (game s)) all_cells then Inr (False, [], [])
              else Inl TypeError)
         | Some sol \<Rightarrow>
             (let bad = incorrect_cells (game s) sol
              in Inr (False, bad, if bad = [] then [] else [WarningIncorrectCells bad]))))"

text \<open>\<^verbatim>\<open>SudokuGame.get_filled_count\<close>\<close>

definition get_filled_count :: "sudoku_game \<Rightarrow> int" where
  "get_filled_count g =
     int (length (filter (\<lambda>p. cell_at (game_board g) p \<noteq> Blank) all_cells))"

subsection \<open>Moves\<close>

text \<open>\<^verbatim>\<open>SudokuGame.is_valid_move\<close>\<close>

definition is_valid_move :: "sudoku_game \<Rightarrow> int \<Rightarrow> int \<Rightarrow> int \<Rightarrow> py_error + bool" where
  "is_valid_move g row col num =
     (case solution_board g of
        None \<Rightarrow> Inr False
      | Some sol \<Rightarrow>
          if (row, col) \<in> immutable_cells g then Inr False
          else (case grid_get sol row col of Inl e \<Rightarrow> Inl e | Inr v \<Rightarrow> Inr (v = num)))"

text \<open>
  \<^verbatim>\<open>SudokuGame.get_hint\<close>: the first empty cell in row-major order, with the solution's
  value. Reading the solution raises \<^verbatim>\<open>TypeError\<close> when it is \<^verbatim>\<open>None\<close>.
\<close>

definition get_hint :: "sudoku_game \<Rightarrow> py_error + (int \<times> int \<times> int) option" where
  "get_hint g =
     (case find (\<lambda>p. cell_at (game_board g) p = Blank) all_cells of
        None \<Rightarrow> Inr None
      | Some (i, j) \<Rightarrow>
          (case solution_board g of
             None \<Rightarrow> Inl TypeError
           | Some sol \<Rightarrow> Inr (Some (i, j, cell_at sol (i, j)))))"

text \<open>
  \<^verbatim>\<open>SudokuMaster.cell_clicked\<close>. \<^verbatim>\<open>set_selected\<close> only restyles a widget, but looking
  the widget up in \<^verbatim>\<open>self.cells\<close> can raise. The new selection is assigned before the
  lookup of its widget.
\<close>

definition cell_clicked :: "int \<Rightarrow> int \<Rightarrow> master \<Rightarrow> master \<times> ui_event list" where
  "cell_clicked row col s =
     (case (case selected_cell s of
              None \<Rightarrow> Inr no_flags
            | Some (pr, pc) \<Rightarrow> grid_get (cells s) pr pc) of
        Inl e \<Rightarrow> (s, [Raised e])
      | Inr _ \<Rightarrow>
          if (row, col) \<notin> immutable_cells (game s) then
            (let s1 = s\<lparr>selected_cell := Some (row, col)\<rparr>
             in case grid_get (cells s1) row col of
                  Inl e \<Rightarrow> (s1, [Raised e])
                | Inr _ \<Rightarrow> (s1, [StatusSelected row col]))
          else (s\<lparr>selected_cell := None\<rparr>, [StatusFixed]))"

text \<open>
  The end of \<^verbatim>\<open>number_clicked\<close>: \<^verbatim>\<open>update_statistics\<close> only redraws labels; when the
  puzzle is solved the timer flag is cleared and the congratulation is shown (the score
  prompt that follows belongs to the leaderboard).
\<close>

definition finish_entry :: "master \<Rightarrow> ui_event list \<Rightarrow> master \<times> ui_event list" where
  "finish_entry s shown =
     (if is_fully_solved s
      then (s\<lparr>is_timer_running := False\<rparr>, shown @ [InfoSolved (mistakes (game s))])
      else (s, shown))"

text \<open>
  \<^verbatim>\<open>SudokuMaster.number_clicked\<close>. \<^verbatim>\<open>set_error(False)\<close> and \<^verbatim>\<open>set_hint(False)\<close> come
  first; \<^verbatim>\<open>set_value\<close> clears both flags again; a wrong entry is counted, stored and
  flagged, and the warning is shown once the count has reached \<^verbatim>\<open>max_mistakes\<close>.
\<close>

definition number_clicked :: "cell \<Rightarrow> master \<Rightarrow> master \<times> ui_event list" where
  "number_clicked number s =
     (case selected_cell s of
        None \<Rightarrow> (s, [StatusSelectFirst])
      | Some (row, col) \<Rightarrow>
          (case grid_set (cells s) row col no_flags of
             Inl e \<Rightarrow> (s, [Raised e])
           | Inr cs \<Rightarrow>
               (let s1 = s\<lparr>cells := cs\<rparr>
                in case number of
                     Blank \<Rightarrow>
                       (case grid_set (game_board (game s1)) row col Blank of
                          Inl e \<Rightarrow> (s1, [Raised e])
                        | Inr b \<Rightarrow>
                            finish_entry (s1\<lparr>game := (game s1)\<lparr>game_board := b\<rparr>\<rparr>)
                              [StatusCleared row col])
                   | Num n \<Rightarrow>
                       (case is_valid_move (game s1) row col n of
                          Inl e \<Rightarrow> (s1, [Raised e])
                        | Inr True \<Rightarrow>
                            (case grid_set (game_board (game s1)) row col (Num n) of
                               Inl e \<Rightarrow> (s1, [Raised e])
                             | Inr b \<Rightarrow>
                                 finish_entry (s1\<lparr>game := (game s1)\<lparr>game_board := b\<rparr>\<rparr>)
                                   [StatusCorrect n row col])
                        | Inr False \<Rightarrow>
                            (let s2 = s1\<lparr>game := (game s1)\<lparr>mistakes := mistakes (game s1) + 1\<rparr>\<rparr>
                             in case grid_set (game_board (game s2)) row col (Num n) of
                                  Inl e \<Rightarrow> (s2, [Raised e])
                                | Inr b \<Rightarrow>
                                    (case grid_set (cells s2) row col (no_flags\<lparr>is_error := True\<rparr>) of
                                       Inl e \<Rightarrow> (s2\<lparr>game := (game s2)\<lparr>game_board := b\<rparr>\<rparr>, [Raised e])
                                     | Inr cs' \<Rightarrow>
                                         finish_entry
                                           (s2\<lparr>game := (game s2)\<lparr>game_board := b\<rparr>, cells := cs'\<rparr>)
                                           (StatusIncorrect (mistakes (game s2)) (max_mistakes (game s2)) #
                                            (if mistakes (game s2) \<ge> max_mistakes (game s2)
                                             then [WarningGameOver (mistakes (game s2))] else []))))))))"

text \<open>
  \<^verbatim>\<open>SudokuMaster.show_hint\<close>. With a selected empty cell the solution's value goes
  there; otherwise \<^verbatim>\<open>get_hint\<close> picks the cell, which also becomes the selection.
\<close>

definition reveal :: "int \<Rightarrow> int \<Rightarrow> int \<Rightarrow> master \<Rightarrow> master \<times> py_error option" where
  "reveal row col v s =
     (case grid_set (game_board (game s)) row col (Num v) of
        Inl e \<Rightarrow> (s, Some e)
      | Inr b \<Rightarrow>
          (let s1 = s\<lparr>game := (game s)\<lparr>game_board := b\<rparr>\<rparr>
           in case grid_set (cells s1) row col (no_flags\<lparr>is_hint := True\<rparr>) of
                Inl e \<Rightarrow> (s1, Some e)
              | Inr cs \<Rightarrow>
                  (s1\<lparr>game := (game s1)\<lparr>hints_used := hints_used (game s1) + 1\<rparr>, cells := cs\<rparr>,
                   None)))"

definition hint_from_scan :: "master \<Rightarrow> master \<times> ui_event list" where
  "hint_from_scan s =
     (case get_hint (game s) of
        Inl e \<Rightarrow> (s, [Raised e])
      | Inr None \<Rightarrow> (s, [StatusNoEmpty])
      | Inr (Some (row, col, v)) \<Rightarrow>
          (case reveal row col v s of
             (s1, Some e) \<Rightarrow> (s1, [Raised e])
           | (s1, None) \<Rightarrow>
               (case (case selected_cell s1 of
                        None \<Rightarrow> Inr no_flags
                      | Some (pr, pc) \<Rightarrow> grid_get (cells s1) pr pc) of
                  Inl e \<Rightarrow> (s1, [Raised e])
                | Inr _ \<Rightarrow> (s1\<lparr>selected_cell := Some (row, col)\<rparr>, [StatusHint v row col]))))"

definition show_hint :: "master \<Rightarrow> master \<times> ui_event list" where
  "show_hint s =
     (case selected_cell s of
        None \<Rightarrow> hint_from_scan s
      | Some (row, col) \<Rightarrow>
          (case grid_get (game_board (game s)) row col of
             Inl e \<Rightarrow> (s, [Raised e])
           | Inr Blank \<Rightarrow>
               (case solution_board (game s) of
                  None \<Rightarrow> (s, [Raised TypeError])
                | Some sol \<Rightarrow>
                    (case grid_get sol row col of
                       Inl e \<Rightarrow> (s, [Raised e])
                     | Inr v \<Rightarrow>
                         (case reveal row col v s of
                            (s1, Some e) \<Rightarrow> (s1, [Raised e])
                          | (s1, None) \<Rightarrow> (s1, [StatusHint v row col]))))
           | Inr (Num _) \<Rightarrow> hint_from_scan s))"

text \<open>
  The player's actions as events, and the three operations of the specification in
  terms of them: placing and clearing select the cell and then press a number or
  "Erase"; a hint is the "Show Hint" button.
\<close>

datatype event = CellClicked int int | NumberClicked cell | ShowHint

fun step :: "master \<Rightarrow> event \<Rightarrow> master \<times> ui_event list" where
  "step s (CellClicked row col) = cell_clicked row col s"
| "step s (NumberClicked number) = number_clicked number s"
| "step s ShowHint = show_hint s"

fun run :: "master \<Rightarrow> event list \<Rightarrow> master \<times> ui_event list" where
  "run s [] = (s, [])"
| "run s (e # es) =
     (case step s e of (s1, shown) \<Rightarrow> (case run s1 es of (s2, shown') \<Rightarrow> (s2, shown @ shown')))"

definition attempt_place :: "int \<Rightarrow> int \<Rightarrow> int \<Rightarrow> master \<Rightarrow> master \<times> ui_event list" where
  "attempt_place row col v s = run s [CellClicked row col, NumberClicked (Num v)]"

definition clear :: "int \<Rightarrow> int \<Rightarrow> master \<Rightarrow> master \<times> ui_event list" where
  "clear row col s = run s [CellClicked row col, NumberClicked Blank]"

datatype operation = AttemptPlace int int int | Clear int int | Hint

fun events_of :: "operation \<Rightarrow> event list" where
  "events_of (AttemptPlace row col v) = [CellClicked row col, NumberClicked (Num v)]"
| "events_of (Clear row col) = [CellClicked row col, NumberClicked Blank]"
| "events_of Hint = [ShowHint]"

definition apply_operations :: "master \<Rightarrow> operation list \<Rightarrow> master" where
  "apply_operations s ops = fst (run s (concat (map events_of ops)))"

subsection \<open>Saving and loading\<close>

text \<open>
  The dictionary \<^verbatim>\<open>data\<close> that \<^verbatim>\<open>save_game\<close> hands to \<^verbatim>\<open>json.dump\<close> and that
  \<^verbatim>\<open>load_game\<close> gets back from \<^verbatim>\<open>json.load\<close>. A field is \<open>None\<close> when the key
  is missing (for the two boards also when it is \<^verbatim>\<open>null\<close>); a field that is present
  has the type \<^verbatim>\<open>save_game\<close> writes. The entries of \<^verbatim>\<open>cells_meta\<close> are dictionaries
  read with \<^verbatim>\<open>meta.get(key, False)\<close>, so each flag may be missing. Choosing the file,
  opening it and the JSON text itself are left to the dialogs and the library.
\<close>

type_synonym meta = "bool option \<times> bool option"

record payload =
  p_solution_board :: "int list list option"
  p_game_board :: "cell list list option"
  p_immutable_cells :: "(int \<times> int) list option"
  p_mistakes :: "int option"
  p_hints_used :: "int option"
  p_empty_cells :: "int option"
  p_seconds :: "int option"
  p_is_timer_running :: "bool option"
  p_cells_meta :: "meta list list option"

text \<open>\<^verbatim>\<open>[[g[r][c] for c in range(9)] for r in range(9)]\<close>\<close>

definition rebuild_9x9 :: "'a list list \<Rightarrow> 'a list list" where
  "rebuild_9x9 g = map (\<lambda>r. map (\<lambda>c. g ! r ! c) [0..<9]) [0..<9]"

text \<open>\<^verbatim>\<open>SudokuMaster.save_game\<close>, up to the dictionary.\<close>

definition save_game :: "master \<Rightarrow> payload" where
  "save_game s =
     \<lparr>p_solution_board = map_option rebuild_9x9 (solution_board (game s)),
      p_game_board = Some (rebuild_9x9 (game_board (game s))),
      p_immutable_cells = Some (sorted_list_of_set (immutable_cells (game s))),
      p_mistakes = Some (mistakes (game s)),
      p_hints_used = Some (hints_used (game s)),
      p_empty_cells = Some (empty_cells (game s)),
      p_seconds = Some (seconds s),
      p_is_timer_running = Some (is_timer_running s),
      p_cells_meta =
        Some (map (map (\<lambda>f. (Some (is_error f), Some (is_hint f)))) (rebuild_9x9 (cells s)))\<rparr>"

text \<open>
  The same comprehension over a list read from a file: an \<^verbatim>\<open>IndexError\<close> when a row
  or the list is too short.
\<close>

definition load_9x9 :: "'a list list \<Rightarrow> py_error + 'a list list" where
  "load_9x9 g =
     (if 9 \<le> length g \<and> list_all (\<lambda>r. 9 \<le> length (g ! r)) [0..<9]
      then Inr (rebuild_9x9 g) else Inl IndexError)"

definition flags_of_meta :: "meta \<Rightarrow> cell_flags" where
  "flags_of_meta m =
     \<lparr>is_error = (case fst m of None \<Rightarrow> False | Some b \<Rightarrow> b),
      is_hint = (case snd m of None \<Rightarrow> False | Some b \<Rightarrow> b)\<rparr>"

text \<open>
  The last loop of \<^verbatim>\<open>load_game\<close>: \<^verbatim>\<open>set_value\<close> clears the flags of the widget, then
  they are set from \<^verbatim>\<open>cells_meta[r][c]\<close> when \<^verbatim>\<open>cells_meta\<close> is neither missing nor
  empty.
\<close>

fun restore_cells ::
  "meta list list option \<Rightarrow> (int \<times> int) list \<Rightarrow> cell_flags list list \<Rightarrow>
   cell_flags list list \<times> py_error option" where
  "restore_cells cm [] cs = (cs, None)"
| "restore_cells cm ((r, c) # rest) cs =
     (let i = nat r; j = nat c; cleared = grid_upd cs i j no_flags
      in case cm of
           None \<Rightarrow> restore_cells cm rest cleared
         | Some m \<Rightarrow>
             if m = [] then restore_cells cm rest cleared
             else if i < length m \<and> j < length (m ! i)
             then restore_cells cm rest (grid_upd cs i j (flags_of_meta (m ! i ! j)))
             else (cleared, Some IndexError))"

text \<open>
  \<^verbatim>\<open>SudokuMaster.load_game\<close>, from the dictionary on. The solution is assigned before
  \<^verbatim>\<open>game_board\<close> is looked at.
\<close>

definition load_game :: "payload \<Rightarrow> master \<Rightarrow> master \<times> ui_event list" where
  "load_game data s =
     (case (case p_solution_board data of
              None \<Rightarrow> Inr None
            | Some sol \<Rightarrow> (case load_9x9 sol of Inl e \<Rightarrow> Inl e | Inr a \<Rightarrow> Inr (Some a))) of
        Inl e \<Rightarrow> (s, [Raised e])
      | Inr sol' \<Rightarrow>
          (let s1 = s\<lparr>game := (game s)\<lparr>solution_board := sol'\<rparr>\<rparr>
           in case p_game_board data of
                None \<Rightarrow> (s1, [CriticalMissingBoard])
              | Some gb \<Rightarrow>
                  (case load_9x9 gb of
                     Inl e \<Rightarrow> (s1, [Raised e])
                   | Inr b \<Rightarrow>
                       (let s2 = s1\<lparr>game := (game s1)
                                    \<lparr>game_board := b,
                                     immutable_cells :=
                                       set (case p_immutable_cells data of None \<Rightarrow> [] | Some im \<Rightarrow> im),
                                     mistakes := (case p_mistakes data of None \<Rightarrow> 0 | Some n \<Rightarrow> n),
                                     hints_used := (case p_hints_used data of None \<Rightarrow> 0 | Some n \<Rightarrow> n),
                                     empty_cells := (case p_empty_cells data of None \<Rightarrow> 40 | Some n \<Rightarrow> n)\<rparr>,
                                   seconds := (case p_seconds data of None \<Rightarrow> 0 | Some n \<Rightarrow> n),
                                   is_timer_running :=
                                     (case p_is_timer_running data of None \<Rightarrow> False | Some t \<Rightarrow> t)\<rparr>
                        in case restore_cells (p_cells_meta data) all_cells (cells s2) of
                             (cs, Some e) \<Rightarrow> (s2\<lparr>cells := cs\<rparr>, [Raised e])
                           | (cs, None) \<Rightarrow> (s2\<lparr>cells := cs, selected_cell := None\<rparr>, [StatusLoaded])))))"

subsection \<open>Well-formed sessions\<close>

text \<open>
  The shape every state built by \<^verbatim>\<open>new_game\<close> or \<^verbatim>\<open>load_game\<close> has: the boards and
  the widget grid are 9 by 9 and the set of immutable cells is finite.
\<close>

definition wf_master :: "master \<Rightarrow> bool" where
  "wf_master s \<longleftrightarrow>
     is_9x9 (game_board (game s)) \<and> is_9x9 (cells s) \<and>
     (case solution_board (game s) of None \<Rightarrow> True | Some sol \<Rightarrow> is_9x9 sol) \<and>
     finite (immutable_cells (game s))"

text \<open>
  The invariant of the data model: there is a solution, the immutable cells are cells
  of the board, and each holds the solution's value.
\<close>

definition fixed_cells_ok :: "master \<Rightarrow> bool" where
  "fixed_cells_ok s \<longleftrightarrow>
     (case solution_board (game s) of
        None \<Rightarrow> False
      | Some sol \<Rightarrow>
          immutable_cells (game s) \<subseteq> set all_cells \<and>
          list_all (\<lambda>p. p \<in> immutable_cells (game s) \<longrightarrow>
                         cell_at (game_board (game s)) p = Num (cell_at sol p)) all_cells)"

text \<open>
  The selection is empty or a cell of the board that is not immutable: what
  \<^verbatim>\<open>cell_clicked\<close> admits when the widgets emit their own coordinates.
\<close>

definition selection_ok :: "master \<Rightarrow> bool" where
  "selection_ok s \<longleftrightarrow>
     (case selected_cell s of
        None \<Rightarrow> True
      | Some p \<Rightarrow> p \<in> set all_cells \<and> p \<notin> immutable_cells (game s))"

definition session_inv :: "master \<Rightarrow> bool" where
  "session_inv s \<longleftrightarrow> wf_master s \<and> fixed_cells_ok s \<and> selection_ok s"

text \<open>The coordinates of an event or operation lie on the board.\<close>

fun event_in_range :: "event \<Rightarrow> bool" where
  "event_in_range (CellClicked row col) = ((row, col) \<in> set all_cells)"
| "event_in_range (NumberClicked number) = True"
| "event_in_range ShowHint = True"

fun operation_in_range :: "operation \<Rightarrow> bool" where
  "operation_in_range (AttemptPlace row col v) = ((row, col) \<in> set all_cells)"
| "operation_in_range (Clear row col) = ((row, col) \<in> set all_cells)"
| "operation_in_range Hint = True"

text \<open>The mistake counter set to a given value, everything else kept.\<close>

definition with_mistakes :: "int \<Rightarrow> master \<Rightarrow> master" where
  "with_mistakes m s = s\<lparr>game := (game s)\<lparr>mistakes := m\<rparr>\<rparr>"

text \<open>
  What was shown, with the mistake count blanked out of the messages that print it and
  the "Game Over" warning left out.
\<close>

fun without_count :: "ui_event \<Rightarrow> ui_event" where
  "without_count (StatusIncorrect n k) = StatusIncorrect 0 k"
| "without_count (InfoSolved n) = InfoSolved 0"
| "without_count u = u"

fun is_game_over :: "ui_event \<Rightarrow> bool" where
  "is_game_over (WarningGameOver n) = True"
| "is_game_over u = False"

definition shown_besides_limit :: "ui_event list \<Rightarrow> ui_event list" where
  "shown_besides_limit us = map without_count (filter (\<lambda>u. \<not> is_game_over u) us)"

text \<open>Two states of one puzzle: the same solution and the same immutable cells.\<close>

definition same_puzzle :: "master \<Rightarrow> master \<Rightarrow> bool" where
  "same_puzzle s s' \<longleftrightarrow>
     solution_board (game s') = solution_board (game s) \<and>
     immutable_cells (game s') = immutable_cells (game s)"

text \<open>
  A sample run: the results of the shuffles, the order in which \<^verbatim>\<open>random.sample\<close> draws
  the cells (row-major), the 40 cells that are masked for a request of 40 (the first 40
  in that order, so that the cell in the last row and column stays immutable), and the
  session that \<^verbatim>\<open>new_game\<close> builds with the slider at 40 and "Medium" checked.
\<close>

definition demo_shuffles :: shuffles where
  "demo_shuffles =
     \<lparr>row_groups = [2, 0, 1], row_inner = [[0, 1, 2], [2, 1, 0], [1, 0, 2]],
      col_groups = [1, 2, 0], col_inner = [[0, 2, 1], [2, 1, 0], [1, 0, 2]],
      nums_shuffled = [5, 3, 9, 1, 2, 4, 8, 7, 6]\<rparr>"

definition demo_drawn :: "(int \<times> int) list" where
  "demo_drawn = all_cells"

definition demo_picked :: "(int \<times> int) list" where
  "demo_picked = take 40 demo_drawn"

definition demo_session :: master where
  "demo_session = fst (new_game 40 Medium demo_shuffles demo_drawn init_master)"

text \<open>Row-major order: row 0 first, and column 0 first within a row.\<close>

definition before :: "int \<times> int \<Rightarrow> int \<times> int \<Rightarrow> bool" where
  "before q p \<longleftrightarrow> fst q < fst p \<or> (fst q = fst p \<and> snd q < snd p)"

text \<open>A save file with no entries at all: in particular without \<^verbatim>\<open>game_board\<close>.\<close>

definition no_board_payload :: payload where
  "no_board_payload =
     \<lparr>p_solution_board = None, p_game_board = None, p_immutable_cells = None,
      p_mistakes = None, p_hints_used = None, p_empty_cells = None, p_seconds = None,
      p_is_timer_running = None, p_cells_meta = None\<rparr>"

section \<open>Proofs\<close>

subsection \<open>The generated grid is a valid Sudoku\<close>

lemma upt3: "[0..<3] = [0, 1, 2::nat]"
  by (simp add: upt_rec)

lemma upt9: "[0..<9] = [0, 1, 2, 3, 4, 5, 6, 7, 8::nat]"
  by (simp add: upt_rec)

lemma upto9: "[1..9] = [1, 2, 3, 4, 5, 6, 7, 8, 9::int]"
  by (simp add: upto_rec1)


lemma lt3_cases: "(n::nat) < 3 \<Longrightarrow> n = 0 \<or> n = 1 \<or> n = 2"
  by arith

lemma lt9_cases:
  "(k::nat) < 9 \<Longrightarrow> k = 8 \<or> k = 7 \<or> k = 6 \<or> k = 5 \<or> k = 4 \<or> k = 3 \<or> k = 2 \<or> k = 1 \<or> k = 0"
  by arith

lemma rotate9: "mset (map (\<lambda>c. (k + c) mod 9) [0..<9]) = mset [0..<9]"
proof -
  have shift: "\<And>c. (k + c) mod 9 = (k mod 9 + c) mod 9"
    by (simp add: mod_add_left_eq)
  have "k mod 9 < 9" by simp
  from lt9_cases [OF this] show ?thesis
    unfolding shift by (elim disjE) (simp_all add: upt9)
qed

lemma transpose9: "mset (map (\<lambda>r. 3 * (r mod 3) + r div 3) [0..<9]) = mset [0..<9]"
  by (simp add: upt9)

lemma mset_map_nth_all: "mset (map ((!) xs) [0..<length xs]) = mset xs"
  by (simp add: map_nth)

lemma mset_map_cong_mset: "mset xs = mset ys \<Longrightarrow> mset (map f xs) = mset (map f ys)"
  by (metis mset_map)

lemma mset_concat_map_cong:
  assumes "mset rs = mset rs'" and "mset cs = mset cs'"
  shows "mset (concat (map (\<lambda>r. map (f r) cs) rs)) = mset (concat (map (\<lambda>r. map (f r) cs') rs'))"
proof -
  have "mset (concat (map (\<lambda>r. map (f r) cs) rs)) = (\<Sum>r\<in>#mset rs. image_mset (f r) (mset cs))"
    by (induction rs) simp_all
  also have "\<dots> = (\<Sum>r\<in>#mset rs'. image_mset (f r) (mset cs'))"
    using assms by simp
  also have "\<dots> = mset (concat (map (\<lambda>r. map (f r) cs') rs'))"
    by (induction rs') simp_all
  finally show ?thesis .
qed

text \<open>Row, column and box of the index pattern.\<close>

lemma pattern_row: "mset (map (\<lambda>c. pattern r c) [0..<9]) = mset [0..<9]"
  unfolding pattern_def BASE_def SIDE_def by (rule rotate9)

lemma pattern_col: "mset (map (\<lambda>r. pattern r c) [0..<9]) = mset [0..<9]"
proof -
  have "map (\<lambda>r. pattern r c) [0..<9] = map (\<lambda>x. (c + x) mod 9) (map (\<lambda>r. 3 * (r mod 3) + r div 3) [0..<9])"
    by (simp add: pattern_def BASE_def SIDE_def add.commute)
  also have "mset \<dots> = mset (map (\<lambda>x. (c + x) mod 9) [0..<9])"
    by (rule mset_map_cong_mset) (rule transpose9)
  finally show ?thesis by (simp only: rotate9)
qed

lemma pattern_box:
  assumes "g < 3" and "h < 3"
  shows "mset (concat (map (\<lambda>r. map (\<lambda>c. pattern r c) [3 * h, 3 * h + 1, 3 * h + 2]) [3 * g, 3 * g + 1, 3 * g + 2]))
           = mset [0..<9]"
  using lt3_cases [OF assms(1)] lt3_cases [OF assms(2)]
  by (elim disjE) (simp_all add: pattern_def BASE_def SIDE_def upt9)


lemma shuffle_r_base_length: "is_shuffle_of r_base xs \<Longrightarrow> length xs = 3"
  by (metis is_shuffle_of_def r_base_def BASE_def size_mset length_upt diff_zero)

lemma shuffle_r_base_lt: "is_shuffle_of r_base xs \<Longrightarrow> x \<in> set xs \<Longrightarrow> x < 3"
proof -
  assume "is_shuffle_of r_base xs" and "x \<in> set xs"
  then have "x \<in> set [0..<3]"
    by (metis is_shuffle_of_def r_base_def BASE_def mset_eq_setD)
  then show ?thesis by simp
qed

lemma length3_conv: "length xs = 3 \<Longrightarrow> \<exists>a b c. xs = [a, b, c]"
  by (auto simp: numeral_3_eq_3 length_Suc_conv)

lemma band_of_shuffle:
  assumes "g < 3" and "is_shuffle_of r_base rs"
  shows "mset (map (\<lambda>r. g * BASE + r) rs) = mset [3 * g, 3 * g + 1, 3 * g + 2]"
proof -
  have "mset (map (\<lambda>r. g * BASE + r) rs) = mset (map (\<lambda>r. g * BASE + r) [0..<3])"
    using assms(2) by (intro mset_map_cong_mset) (simp add: is_shuffle_of_def r_base_def BASE_def)
  then show ?thesis by (simp add: upt3 BASE_def mult.commute)
qed

lemma band_lines_shape:
  assumes G: "is_shuffle_of r_base G" and len: "length I = BASE"
    and I: "list_all (is_shuffle_of r_base) I"
  shows "length (band_lines G I) = 9"
    and "mset (band_lines G I) = mset [0..<9]"
    and "bi < 3 \<Longrightarrow> \<exists>g<3. mset (take 3 (drop (3 * bi) (band_lines G I))) = mset [3 * g, 3 * g + 1, 3 * g + 2]"
proof -
  obtain g0 g1 g2 where Geq: "G = [g0, g1, g2]"
    using length3_conv [OF shuffle_r_base_length [OF G]] by blast
  have "length I = 3"
    using len by (simp add: BASE_def)
  from length3_conv [OF this] obtain i0 i1 i2 where Ieq: "I = [i0, i1, i2]"
    by blast
  have g: "g0 < 3" "g1 < 3" "g2 < 3"
    using shuffle_r_base_lt [OF G] by (simp_all add: Geq)
  have i: "is_shuffle_of r_base i0" "is_shuffle_of r_base i1" "is_shuffle_of r_base i2"
    using I by (simp_all add: Ieq)
  have li: "length i0 = 3" "length i1 = 3" "length i2 = 3"
    using i by (simp_all add: shuffle_r_base_length)
  have bl: "band_lines G I = map (\<lambda>r. g0 * BASE + r) i0 @ map (\<lambda>r. g1 * BASE + r) i1 @ map (\<lambda>r. g2 * BASE + r) i2"
    by (simp add: band_lines_def Geq Ieq)
  show "length (band_lines G I) = 9"
    by (simp add: bl li)
  have b: "mset (map (\<lambda>r. g0 * BASE + r) i0) = mset [3 * g0, 3 * g0 + 1, 3 * g0 + 2]"
    "mset (map (\<lambda>r. g1 * BASE + r) i1) = mset [3 * g1, 3 * g1 + 1, 3 * g1 + 2]"
    "mset (map (\<lambda>r. g2 * BASE + r) i2) = mset [3 * g2, 3 * g2 + 1, 3 * g2 + 2]"
    using g i by (simp_all only: band_of_shuffle)
  have "mset (band_lines G I) = image_mset (\<lambda>g. 3 * g) (mset G) + image_mset (\<lambda>g. 3 * g + 1) (mset G)
          + image_mset (\<lambda>g. 3 * g + 2) (mset G)"
    unfolding bl mset_append b by (simp add: Geq)
  also have "mset G = mset [0, 1, 2]"
    using G by (simp add: is_shuffle_of_def r_base_def BASE_def upt3)
  finally show "mset (band_lines G I) = mset [0..<9]"
    by (simp add: upt9)
  show "\<exists>g<3. mset (take 3 (drop (3 * bi) (band_lines G I))) = mset [3 * g, 3 * g + 1, 3 * g + 2]"
    if "bi < 3"
  proof -
    from lt3_cases [OF that] consider "bi = 0" | "bi = 1" | "bi = 2" by blast
    then show ?thesis
    proof cases
      case 1
      then have "take 3 (drop (3 * bi) (band_lines G I)) = map (\<lambda>r. g0 * BASE + r) i0"
        by (simp add: bl li)
      with b(1) g(1) show ?thesis by auto
    next
      case 2
      then have "take 3 (drop (3 * bi) (band_lines G I)) = map (\<lambda>r. g1 * BASE + r) i1"
        by (simp add: bl li)
      with b(2) g(2) show ?thesis by auto
    next
      case 3
      then have "take 3 (drop (3 * bi) (band_lines G I)) = map (\<lambda>r. g2 * BASE + r) i2"
        by (simp add: bl li)
      with b(3) g(3) show ?thesis by auto
    qed
  qed
qed

lemma nums_through_perm:
  assumes N: "is_shuffle_of [1..9] N" and X: "mset X = mset [0..<9]"
  shows "has_all_digits (map ((!) N) X)"
proof -
  have "size (mset N) = size (mset [1..9::int])"
    using N by (simp only: is_shuffle_of_def)
  then have len: "length N = 9"
    by (simp add: upto9)
  have "mset (map ((!) N) X) = mset (map ((!) N) [0..<length N])"
    unfolding len by (rule mset_map_cong_mset) (rule X)
  also have "\<dots> = mset N" by (rule mset_map_nth_all)
  finally show ?thesis using N by (simp add: has_all_digits_def is_shuffle_of_def)
qed


lemma take_drop_map: "take n (drop k (map f xs)) = map f (take n (drop k xs))"
  by (simp add: take_map drop_map)

lemma generate_sudoku_valid_aux:
  assumes R9: "length R = 9" and Rm: "mset R = mset [0..<9]"
    and Rb: "\<And>bi. bi < 3 \<Longrightarrow> \<exists>g<3. mset (take 3 (drop (3 * bi) R)) = mset [3 * g, 3 * g + 1, 3 * g + 2]"
    and C9: "length C = 9" and Cm: "mset C = mset [0..<9]"
    and Cb: "\<And>bj. bj < 3 \<Longrightarrow> \<exists>h<3. mset (take 3 (drop (3 * bj) C)) = mset [3 * h, 3 * h + 1, 3 * h + 2]"
    and N: "is_shuffle_of [1..9] N"
  shows "is_valid_sudoku (map (\<lambda>r. map (\<lambda>c. N ! pattern r c) C) R)"
proof -
  let ?g = "map (\<lambda>r. map (\<lambda>c. N ! pattern r c) C) R"
  have rows: "has_all_digits (map (\<lambda>c. N ! pattern r c) C)" for r
  proof -
    have "mset (map (pattern r) C) = mset [0..<9]"
      using mset_map_cong_mset [OF Cm, of "pattern r"] pattern_row [of r] by simp
    from nums_through_perm [OF N this] show ?thesis by (simp add: comp_def)
  qed
  have cols: "has_all_digits (grid_col ?g j)" if "j < 9" for j
  proof -
    have eq: "grid_col ?g j = map ((!) N) (map (\<lambda>r. pattern r (C ! j)) R)"
      using that C9 by (simp add: grid_col_def comp_def)
    have "mset (map (\<lambda>r. pattern r (C ! j)) R) = mset [0..<9]"
      using mset_map_cong_mset [OF Rm, of "\<lambda>r. pattern r (C ! j)"] pattern_col [of "C ! j"] by simp
    from nums_through_perm [OF N this] show ?thesis by (simp only: eq)
  qed
  have boxes: "has_all_digits (grid_box ?g bi bj)" if bi: "bi < 3" and bj: "bj < 3" for bi bj
  proof -
    obtain g where g: "g < 3" "mset (take 3 (drop (3 * bi) R)) = mset [3 * g, 3 * g + 1, 3 * g + 2]"
      using Rb [OF bi] by blast
    obtain h where h: "h < 3" "mset (take 3 (drop (3 * bj) C)) = mset [3 * h, 3 * h + 1, 3 * h + 2]"
      using Cb [OF bj] by blast
    let ?Rb = "take 3 (drop (3 * bi) R)" and ?Cb = "take 3 (drop (3 * bj) C)"
    have "grid_box ?g bi bj = concat (map (\<lambda>r. map (\<lambda>c. N ! pattern r c) ?Cb) ?Rb)"
      by (simp add: grid_box_def take_drop_map comp_def)
    also have "\<dots> = map ((!) N) (concat (map (\<lambda>r. map (\<lambda>c. pattern r c) ?Cb) ?Rb))"
      by (simp add: map_concat comp_def)
    finally have eq: "grid_box ?g bi bj = map ((!) N) (concat (map (\<lambda>r. map (\<lambda>c. pattern r c) ?Cb) ?Rb))" .
    have "mset (concat (map (\<lambda>r. map (\<lambda>c. pattern r c) ?Cb) ?Rb)) = mset [0..<9]"
      using mset_concat_map_cong [OF g(2) h(2), of pattern] pattern_box [OF g(1) h(1)] by simp
    from nums_through_perm [OF N this] show ?thesis by (simp only: eq)
  qed
  have "list_all (\<lambda>row. length row = 9) ?g"
    by (simp add: list_all_iff C9)
  moreover have "list_all has_all_digits ?g"
    using rows by (simp add: list_all_iff)
  moreover have "list_all (\<lambda>j. has_all_digits (grid_col ?g j)) [0..<9]"
    using cols by (simp add: list_all_iff)
  moreover have "list_all (\<lambda>bi. list_all (\<lambda>bj. has_all_digits (grid_box ?g bi bj)) [0..<3]) [0..<3]"
    using boxes by (simp add: list_all_iff)
  ultimately show ?thesis
    using R9 by (simp add: is_valid_sudoku_def)
qed

lemma pattern_in_range: "pattern r c < SIDE"
  by (simp add: pattern_def SIDE_def)

text \<open>
  Claim C1. Whatever the random shuffles return, the grid built by \<^verbatim>\<open>generate_sudoku\<close>
  satisfies the Sudoku constraint: each of its 9 rows, each of its 9 columns and each of
  its nine 3 by 3 boxes holds every digit from 1 to 9 exactly once.
\<close>

theorem generate_sudoku_valid:
  "valid_shuffles sh \<Longrightarrow> is_valid_sudoku (generate_sudoku sh)"
proof -
  assume v: "valid_shuffles sh"
  then have rg: "is_shuffle_of r_base (row_groups sh)" and rl: "length (row_inner sh) = BASE"
    and ri: "list_all (is_shuffle_of r_base) (row_inner sh)"
    and cg: "is_shuffle_of r_base (col_groups sh)" and cl: "length (col_inner sh) = BASE"
    and ci: "list_all (is_shuffle_of r_base) (col_inner sh)"
    and n: "is_shuffle_of [1..9] (nums_shuffled sh)"
    by (simp_all add: valid_shuffles_def SIDE_def)
  show ?thesis
    unfolding generate_sudoku_def Let_def
    by (rule generate_sudoku_valid_aux)
      (rule band_lines_shape [OF rg rl ri] band_lines_shape [OF cg cl ci] n | assumption)+
qed

theorem generate_sudoku_valid_witness:
  "valid_shuffles \<lparr>row_groups = [2, 0, 1], row_inner = [[0, 1, 2], [2, 1, 0], [1, 0, 2]],
      col_groups = [1, 2, 0], col_inner = [[0, 2, 1], [2, 1, 0], [1, 0, 2]],
      nums_shuffled = [5, 3, 9, 1, 2, 4, 8, 7, 6]\<rparr> \<and>
   is_valid_sudoku (generate_sudoku \<lparr>row_groups = [2, 0, 1], row_inner = [[0, 1, 2], [2, 1, 0], [1, 0, 2]],
      col_groups = [1, 2, 0], col_inner = [[0, 2, 1], [2, 1, 0], [1, 0, 2]],
      nums_shuffled = [5, 3, 9, 1, 2, 4, 8, 7, 6]\<rparr>)"
proof -
  have v: "valid_shuffles \<lparr>row_groups = [2, 0, 1], row_inner = [[0, 1, 2], [2, 1, 0], [1, 0, 2]],
      col_groups = [1, 2, 0], col_inner = [[0, 2, 1], [2, 1, 0], [1, 0, 2]],
      nums_shuffled = [5, 3, 9, 1, 2, 4, 8, 7, 6]\<rparr>"
    by (simp add: valid_shuffles_def is_shuffle_of_def r_base_def BASE_def SIDE_def upt3 upto9)
  from v generate_sudoku_valid [OF v] show ?thesis by simp
qed

subsection \<open>Grids and indices\<close>

lemma all_cells_iff: "(r, c) \<in> set all_cells \<longleftrightarrow> 0 \<le> r \<and> r \<le> 8 \<and> 0 \<le> c \<and> c \<le> 8"
  by (force simp: all_cells_def)

lemma all_cells_nat: "(r, c) \<in> set all_cells \<Longrightarrow> nat r < 9 \<and> nat c < 9"
  by (auto simp: all_cells_iff)

lemma norm_index_in_range: "0 \<le> i \<Longrightarrow> i < int n \<Longrightarrow> norm_index n i = Some (nat i)"
  by (simp add: norm_index_def)

lemma norm_index_None_iff: "norm_index n i = None \<longleftrightarrow> i < - int n \<or> int n \<le> i"
  by (auto simp: norm_index_def)

lemma norm_index_bound: "norm_index n i = Some k \<Longrightarrow> k < n"
  by (auto simp: norm_index_def split: if_splits)

lemma is_9x9_length: "is_9x9 g \<Longrightarrow> length g = 9"
  by (simp add: is_9x9_def)

lemma is_9x9_row: "is_9x9 g \<Longrightarrow> i < 9 \<Longrightarrow> length (g ! i) = 9"
  by (simp add: is_9x9_def list_all_length)

lemma is_9x9_grid_upd: "is_9x9 g \<Longrightarrow> is_9x9 (grid_upd g i j v)"
proof (cases "i < length g")
  case True
  assume "is_9x9 g"
  with True show ?thesis
    by (auto simp: is_9x9_def grid_upd_def list_all_length nth_list_update)
next
  case False
  assume "is_9x9 g"
  with False show ?thesis
    by (simp add: grid_upd_def list_update_beyond not_less)
qed

lemma grid_upd_nth:
  "i < length g \<Longrightarrow> j < length (g ! i) \<Longrightarrow>
   grid_upd g i j v ! i' ! j' = (if i' = i \<and> j' = j then v else g ! i' ! j')"
  by (auto simp: grid_upd_def nth_list_update)

lemma norm_index_9: "(r, c) \<in> set all_cells \<Longrightarrow> norm_index 9 r = Some (nat r) \<and> norm_index 9 c = Some (nat c)"
  by (simp add: all_cells_iff norm_index_in_range)

lemma grid_get_9x9:
  assumes "is_9x9 g" and "(r, c) \<in> set all_cells"
  shows "grid_get g r c = Inr (cell_at g (r, c))"
  using assms norm_index_9 [OF assms(2)] all_cells_nat [OF assms(2)]
  by (simp add: grid_get_def is_9x9_length is_9x9_row cell_at_def)

lemma grid_set_9x9:
  assumes "is_9x9 g" and "(r, c) \<in> set all_cells"
  shows "grid_set g r c v = Inr (grid_upd g (nat r) (nat c) v)"
  using assms norm_index_9 [OF assms(2)] all_cells_nat [OF assms(2)]
  by (simp add: grid_set_def is_9x9_length is_9x9_row)

lemma cell_at_grid_upd:
  assumes "is_9x9 g" and "(r, c) \<in> set all_cells" and "p \<in> set all_cells"
  shows "cell_at (grid_upd g (nat r) (nat c) v) p = (if p = (r, c) then v else cell_at g p)"
proof -
  obtain r' c' where p: "p = (r', c')" by (cases p)
  have "nat r < length g" "nat c < length (g ! nat r)"
    using assms(1) all_cells_nat [OF assms(2)] by (simp_all add: is_9x9_length is_9x9_row)
  then show ?thesis
    using assms(2,3) by (auto simp: p cell_at_def grid_upd_nth all_cells_iff)
qed

lemma grid_index_out_of_range:
  assumes "is_9x9 g" and "r < - 9 \<or> 9 \<le> r \<or> c < - 9 \<or> 9 \<le> c"
  shows "grid_get g r c = Inl IndexError" and "grid_set g r c v = Inl IndexError"
proof -
  have "norm_index (length g) r = None \<or>
        (\<exists>i. norm_index (length g) r = Some i \<and> norm_index (length (g ! i)) c = None)"
  proof (cases "norm_index (length g) r")
    case None
    then show ?thesis by simp
  next
    case (Some i)
    then have "i < 9" and "\<not> (r < - 9 \<or> 9 \<le> r)"
      using assms(1) norm_index_bound [OF Some] norm_index_None_iff [of "length g" r]
      by (simp_all add: is_9x9_length)
    then have "norm_index (length (g ! i)) c = None"
      using assms by (simp add: is_9x9_row norm_index_None_iff)
    with Some show ?thesis by simp
  qed
  then show "grid_get g r c = Inl IndexError" and "grid_set g r c v = Inl IndexError"
    by (auto simp: grid_get_def grid_set_def)
qed


subsection \<open>Loading a file without a board\<close>

lemma load_game_missing_board:
  "p_game_board data = None \<Longrightarrow> p_solution_board data = None \<Longrightarrow>
   load_game data s = (s\<lparr>game := (game s)\<lparr>solution_board := None\<rparr>\<rparr>, [CriticalMissingBoard])"
  by (simp add: load_game_def)

subsection \<open>States that differ in the mistake counter\<close>

lemma is_fully_solved_with_mistakes [simp]:
  "is_fully_solved (with_mistakes m s) = is_fully_solved s"
  by (simp add: is_fully_solved_def with_mistakes_def split: option.splits)

lemma is_valid_move_mistakes [simp]:
  "is_valid_move (g\<lparr>mistakes := m\<rparr>) row col n = is_valid_move g row col n"
  by (simp add: is_valid_move_def split: option.splits)

lemma get_hint_mistakes [simp]: "get_hint (g\<lparr>mistakes := m\<rparr>) = get_hint g"
  by (simp add: get_hint_def split: option.splits prod.splits)

lemma is_fully_solved_cong:
  "solution_board (game s) = solution_board (game s') \<Longrightarrow> game_board (game s) = game_board (game s') \<Longrightarrow>
   is_fully_solved s = is_fully_solved s'"
  by (simp add: is_fully_solved_def split: option.splits)

lemma cell_clicked_mistakes:
  "fst (cell_clicked row col (with_mistakes m s)) = with_mistakes m (fst (cell_clicked row col s))"
  "mistakes (game (fst (cell_clicked row col s))) = mistakes (game s)"
  "max_mistakes (game (fst (cell_clicked row col s))) = max_mistakes (game s)"
  by (auto simp: cell_clicked_def with_mistakes_def Let_def split: option.splits sum.splits)


lemma finish_entry_mistakes:
  "fst (finish_entry (with_mistakes m s) shown) = with_mistakes m (fst (finish_entry s shown'))"
  "mistakes (game (fst (finish_entry s shown))) = mistakes (game s)"
  "max_mistakes (game (fst (finish_entry s shown))) = max_mistakes (game s)"
  by (auto simp: finish_entry_def with_mistakes_def is_fully_solved_def split: option.splits)

lemma finish_entry_shown:
  "shown_besides_limit shown = shown_besides_limit shown' \<Longrightarrow>
   shown_besides_limit (snd (finish_entry (with_mistakes m s) shown)) =
   shown_besides_limit (snd (finish_entry s shown'))"
  by (auto simp: finish_entry_def with_mistakes_def shown_besides_limit_def is_fully_solved_def
      split: option.splits)


lemma with_mistakes_simps [simp]:
  "selected_cell (with_mistakes m s) = selected_cell s"
  "cells (with_mistakes m s) = cells s"
  "mistakes (game (with_mistakes m s)) = m"
  "max_mistakes (game (with_mistakes m s)) = max_mistakes (game s)"
  "game_board (game (with_mistakes m s)) = game_board (game s)"
  "solution_board (game (with_mistakes m s)) = solution_board (game s)"
  "immutable_cells (game (with_mistakes m s)) = immutable_cells (game s)"
  "hints_used (game (with_mistakes m s)) = hints_used (game s)"
  by (simp_all add: with_mistakes_def)

subsection \<open>The mistake limit\<close>

lemmas limit_unfolds =
  Let_def finish_entry_def with_mistakes_def is_fully_solved_def shown_besides_limit_def

lemma number_clicked_limit:
  "fst (number_clicked number (with_mistakes m s)) =
     with_mistakes (m + (mistakes (game (fst (number_clicked number s))) - mistakes (game s)))
       (fst (number_clicked number s)) \<and>
   max_mistakes (game (fst (number_clicked number s))) = max_mistakes (game s) \<and>
   shown_besides_limit (snd (number_clicked number (with_mistakes m s))) =
     shown_besides_limit (snd (number_clicked number s))"
proof (cases "selected_cell s")
  case None
  then show ?thesis by (simp add: number_clicked_def with_mistakes_def)
next
  case (Some p)
  obtain row col where p: "p = (row, col)" by (cases p)
  note sel = Some [unfolded p]
  show ?thesis
  proof (cases "grid_set (cells s) row col no_flags")
    case (Inl e)
    with sel show ?thesis by (simp add: number_clicked_def with_mistakes_def)
  next
    case cs: (Inr cs)
    show ?thesis
    proof (cases number)
      case Blank
      with sel cs show ?thesis
        by (cases "grid_set (game_board (game s)) row col Blank")
          (simp_all add: number_clicked_def limit_unfolds split: option.splits)
    next
      case (Num n)
      show ?thesis
      proof (cases "is_valid_move (game s) row col n")
        case (Inl e)
        with sel cs Num show ?thesis by (simp add: number_clicked_def with_mistakes_def)
      next
        case (Inr ok)
        show ?thesis
        proof (cases ok)
          case True
          with sel cs Num Inr show ?thesis
            by (cases "grid_set (game_board (game s)) row col (Num n)")
              (simp_all add: number_clicked_def limit_unfolds split: option.splits)
        next
          case False
          with sel cs Num Inr show ?thesis
            by (cases "grid_set (game_board (game s)) row col (Num n)";
                cases "grid_set cs row col (no_flags\<lparr>is_error := True\<rparr>)")
              (simp_all add: number_clicked_def limit_unfolds split: option.splits)
        qed
      qed
    qed
  qed
qed


lemma cell_clicked_limit:
  "fst (cell_clicked row col (with_mistakes m s)) =
     with_mistakes (m + (mistakes (game (fst (cell_clicked row col s))) - mistakes (game s)))
       (fst (cell_clicked row col s)) \<and>
   max_mistakes (game (fst (cell_clicked row col s))) = max_mistakes (game s) \<and>
   shown_besides_limit (snd (cell_clicked row col (with_mistakes m s))) =
     shown_besides_limit (snd (cell_clicked row col s))"
  by (auto simp: cell_clicked_def with_mistakes_def Let_def split: option.splits sum.splits)

lemma reveal_limit:
  "fst (reveal row col v (with_mistakes m s)) = with_mistakes m (fst (reveal row col v s)) \<and>
   snd (reveal row col v (with_mistakes m s)) = snd (reveal row col v s) \<and>
   mistakes (game (fst (reveal row col v s))) = mistakes (game s) \<and>
   max_mistakes (game (fst (reveal row col v s))) = max_mistakes (game s)"
  by (cases "grid_set (game_board (game s)) row col (Num v)";
      cases "grid_set (cells s) row col (no_flags\<lparr>is_hint := True\<rparr>)")
    (simp_all add: reveal_def with_mistakes_def Let_def)

lemma hint_from_scan_limit:
  "fst (hint_from_scan (with_mistakes m s)) =
     with_mistakes (m + (mistakes (game (fst (hint_from_scan s))) - mistakes (game s)))
       (fst (hint_from_scan s)) \<and>
   max_mistakes (game (fst (hint_from_scan s))) = max_mistakes (game s) \<and>
   shown_besides_limit (snd (hint_from_scan (with_mistakes m s))) =
     shown_besides_limit (snd (hint_from_scan s))"
proof (cases "get_hint (game s)")
  case (Inl e)
  then show ?thesis by (simp add: hint_from_scan_def with_mistakes_def)
next
  case (Inr h)
  show ?thesis
  proof (cases h)
    case None
    with Inr show ?thesis by (simp add: hint_from_scan_def with_mistakes_def)
  next
    case (Some t)
    obtain row col v where t: "t = (row, col, v)" by (cases t)
    obtain s1 err where r: "reveal row col v s = (s1, err)" by (cases "reveal row col v s")
    have r': "reveal row col v (with_mistakes m s) = (with_mistakes m s1, err)"
      and keep: "mistakes (game s1) = mistakes (game s)" "max_mistakes (game s1) = max_mistakes (game s)"
      using reveal_limit [of row col v m s] r by (simp_all add: prod_eq_iff)
    have g: "get_hint (game (with_mistakes m s)) = Inr (Some (row, col, v))"
      using Inr Some t by (simp add: with_mistakes_def)
    show ?thesis
      using Inr Some t r r' keep g
      by (cases err; cases "selected_cell s1")
        (auto simp: hint_from_scan_def with_mistakes_def shown_besides_limit_def split: sum.splits)
  qed
qed

lemma show_hint_limit:
  "fst (show_hint (with_mistakes m s)) =
     with_mistakes (m + (mistakes (game (fst (show_hint s))) - mistakes (game s)))
       (fst (show_hint s)) \<and>
   max_mistakes (game (fst (show_hint s))) = max_mistakes (game s) \<and>
   shown_besides_limit (snd (show_hint (with_mistakes m s))) =
     shown_besides_limit (snd (show_hint s))"
proof (cases "selected_cell s")
  case None
  then show ?thesis using hint_from_scan_limit [of m s] by (simp add: show_hint_def)
next
  case (Some p)
  obtain row col where p: "p = (row, col)" by (cases p)
  note sel = Some [unfolded p]
  show ?thesis
  proof (cases "grid_get (game_board (game s)) row col")
    case (Inl e)
    with sel show ?thesis by (simp add: show_hint_def with_mistakes_def)
  next
    case (Inr x)
    show ?thesis
    proof (cases x)
      case (Num n)
      with sel Inr show ?thesis using hint_from_scan_limit [of m s] by (simp add: show_hint_def)
    next
      case Blank
      show ?thesis
      proof (cases "solution_board (game s)")
        case None
        with sel Inr Blank show ?thesis by (simp add: show_hint_def with_mistakes_def)
      next
        case sol: (Some sol)
        show ?thesis
        proof (cases "grid_get sol row col")
          case (Inl e)
          with sel Inr Blank sol show ?thesis by (simp add: show_hint_def with_mistakes_def)
        next
          case v: (Inr v)
          obtain s1 err where r: "reveal row col v s = (s1, err)" by (cases "reveal row col v s")
          have r': "reveal row col v (with_mistakes m s) = (with_mistakes m s1, err)"
            and keep: "mistakes (game s1) = mistakes (game s)"
              "max_mistakes (game s1) = max_mistakes (game s)"
            using reveal_limit [of row col v m s] r by (simp_all add: prod_eq_iff)
          show ?thesis
            using sel Inr Blank sol v r r' keep
            by (cases err) (simp_all add: show_hint_def shown_besides_limit_def)
        qed
      qed
    qed
  qed
qed

text \<open>
  Claim C10. A session carries the mistake limit \<^verbatim>\<open>max_mistakes = 5\<close>, and no handler
  enforces it. Whatever the state \<open>s\<close>, the event and the value \<open>m\<close> of the mistake
  counter (in particular one at or above the limit, against one below it): the limit
  stays what it was, the event leaves the same state up to the counter, which moves by
  the same amount, and it shows the same messages up to the count printed in them and
  the "Game Over" warning. So reaching the limit shows a warning and changes or blocks
  nothing.
\<close>

theorem mistake_limit_not_enforced:
  "max_mistakes init_game = 5 \<and>
   max_mistakes (game (fst (step s e))) = max_mistakes (game s) \<and>
   fst (step (with_mistakes m s) e) =
     with_mistakes (m + (mistakes (game (fst (step s e))) - mistakes (game s))) (fst (step s e)) \<and>
   shown_besides_limit (snd (step (with_mistakes m s) e)) = shown_besides_limit (snd (step s e))"
  using cell_clicked_limit [of _ _ m s] number_clicked_limit [of _ m s] show_hint_limit [of m s]
  by (cases e) (simp_all add: init_game_def)

subsection \<open>The handlers on a well-formed session\<close>

lemma session_invD:
  assumes "session_inv s"
  shows "is_9x9 (game_board (game s))" and "is_9x9 (cells s)"
    and "finite (immutable_cells (game s))"
    and "\<exists>sol. solution_board (game s) = Some sol \<and> is_9x9 sol"
    and "immutable_cells (game s) \<subseteq> set all_cells"
    and "selected_cell s = Some p \<Longrightarrow> p \<in> set all_cells \<and> p \<notin> immutable_cells (game s)"
  using assms
  by (auto simp: session_inv_def wf_master_def fixed_cells_ok_def selection_ok_def
      split: option.splits)

lemma fixed_cells_okD:
  "fixed_cells_ok s \<Longrightarrow> solution_board (game s) = Some sol \<Longrightarrow> p \<in> immutable_cells (game s) \<Longrightarrow>
   cell_at (game_board (game s)) p = Num (cell_at sol p)"
  by (auto simp: fixed_cells_ok_def list_all_iff)

lemma selection_lookup:
  assumes "session_inv s"
  shows "(case selected_cell s of None \<Rightarrow> Inr no_flags | Some (pr, pc) \<Rightarrow> grid_get (cells s) pr pc)
         = Inr (case selected_cell s of None \<Rightarrow> no_flags | Some p \<Rightarrow> cell_at (cells s) p)"
proof (cases "selected_cell s")
  case None
  then show ?thesis by simp
next
  case (Some p)
  obtain pr pc where p: "p = (pr, pc)" by (cases p)
  have "(pr, pc) \<in> set all_cells"
    using session_invD(6) [OF assms Some] by (simp add: p)
  then show ?thesis
    using Some p session_invD(2) [OF assms] by (simp add: grid_get_9x9)
qed

lemma cell_clicked_session:
  assumes "session_inv s" and "(row, col) \<in> set all_cells"
  shows "cell_clicked row col s =
           (if (row, col) \<notin> immutable_cells (game s)
            then (s\<lparr>selected_cell := Some (row, col)\<rparr>, [StatusSelected row col])
            else (s\<lparr>selected_cell := None\<rparr>, [StatusFixed]))"
  using selection_lookup [OF assms(1)] session_invD(2) [OF assms(1)] assms(2)
  by (simp add: cell_clicked_def Let_def grid_get_9x9)

lemma cell_clicked_out_of_range:
  assumes "session_inv s" and "row < - 9 \<or> 9 \<le> row \<or> col < - 9 \<or> 9 \<le> col"
  shows "cell_clicked row col s = (s\<lparr>selected_cell := Some (row, col)\<rparr>, [Raised IndexError])"
proof -
  have "(row, col) \<notin> set all_cells"
    using assms(2) by (auto simp: all_cells_iff)
  then have "(row, col) \<notin> immutable_cells (game s)"
    using session_invD(5) [OF assms(1)] by blast
  then show ?thesis
    using selection_lookup [OF assms(1)] grid_index_out_of_range(1) [OF session_invD(2) [OF assms(1)] assms(2)]
    by (simp add: cell_clicked_def Let_def)
qed

lemma is_valid_move_session:
  assumes "solution_board g = Some sol" and "is_9x9 sol" and "(row, col) \<in> set all_cells"
    and "(row, col) \<notin> immutable_cells g"
  shows "is_valid_move g row col n = Inr (cell_at sol (row, col) = n)"
  using assms by (simp add: is_valid_move_def grid_get_9x9)

text \<open>The three outcomes of \<open>number_clicked\<close> on a selected cell of the board.\<close>

lemma number_clicked_erase:
  assumes "is_9x9 (cells s)" and "is_9x9 (game_board (game s))"
    and "selected_cell s = Some (row, col)" and "(row, col) \<in> set all_cells"
  shows "number_clicked Blank s =
           finish_entry
             (s\<lparr>cells := grid_upd (cells s) (nat row) (nat col) no_flags,
                game := (game s)\<lparr>game_board := grid_upd (game_board (game s)) (nat row) (nat col) Blank\<rparr>\<rparr>)
             [StatusCleared row col]"
  using assms by (simp add: number_clicked_def grid_set_9x9 Let_def)

lemma number_clicked_correct:
  assumes "is_9x9 (cells s)" and "is_9x9 (game_board (game s))"
    and "selected_cell s = Some (row, col)" and "(row, col) \<in> set all_cells"
    and "is_valid_move (game s) row col n = Inr True"
  shows "number_clicked (Num n) s =
           finish_entry
             (s\<lparr>cells := grid_upd (cells s) (nat row) (nat col) no_flags,
                game := (game s)\<lparr>game_board := grid_upd (game_board (game s)) (nat row) (nat col) (Num n)\<rparr>\<rparr>)
             [StatusCorrect n row col]"
  using assms by (simp add: number_clicked_def grid_set_9x9 Let_def)

lemma number_clicked_incorrect:
  assumes "is_9x9 (cells s)" and "is_9x9 (game_board (game s))"
    and "selected_cell s = Some (row, col)" and "(row, col) \<in> set all_cells"
    and "is_valid_move (game s) row col n = Inr False"
  shows "number_clicked (Num n) s =
           finish_entry
             (s\<lparr>game := (game s)\<lparr>mistakes := mistakes (game s) + 1,
                          game_board := grid_upd (game_board (game s)) (nat row) (nat col) (Num n)\<rparr>,
                cells := grid_upd (grid_upd (cells s) (nat row) (nat col) no_flags) (nat row) (nat col)
                          (no_flags\<lparr>is_error := True\<rparr>)\<rparr>)
             (StatusIncorrect (mistakes (game s) + 1) (max_mistakes (game s)) #
              (if max_mistakes (game s) \<le> mistakes (game s) + 1
               then [WarningGameOver (mistakes (game s) + 1)] else []))"
  using assms by (simp add: number_clicked_def grid_set_9x9 Let_def is_9x9_grid_upd)

lemma number_clicked_out_of_range:
  assumes "is_9x9 (cells s)" and "selected_cell s = Some (row, col)"
    and "row < - 9 \<or> 9 \<le> row \<or> col < - 9 \<or> 9 \<le> col"
  shows "number_clicked number s = (s, [Raised IndexError])"
  using assms(2) grid_index_out_of_range(2) [OF assms(1,3)]
  by (simp add: number_clicked_def)

lemma finish_entry_fst:
  "game (fst (finish_entry s shown)) = game s"
  "cells (fst (finish_entry s shown)) = cells s"
  "selected_cell (fst (finish_entry s shown)) = selected_cell s"
  "seconds (fst (finish_entry s shown)) = seconds s"
  by (simp_all add: finish_entry_def)



subsection \<open>Hints on a well-formed session\<close>

lemma reveal_session:
  assumes "is_9x9 (cells s)" and "is_9x9 (game_board (game s))" and "(row, col) \<in> set all_cells"
  shows "reveal row col v s =
           (s\<lparr>game := (game s)\<lparr>game_board := grid_upd (game_board (game s)) (nat row) (nat col) (Num v),
                                 hints_used := hints_used (game s) + 1\<rparr>,
               cells := grid_upd (cells s) (nat row) (nat col) (no_flags\<lparr>is_hint := True\<rparr>)\<rparr>, None)"
  using assms by (simp add: reveal_def grid_set_9x9 Let_def)

lemma find_all_cells:
  "find P all_cells = Some p \<Longrightarrow> p \<in> set all_cells \<and> P p"
  by (auto simp: find_Some_iff)

lemma get_hint_session:
  assumes "solution_board g = Some sol"
  shows "get_hint g =
           Inr (map_option (\<lambda>p. (fst p, snd p, cell_at sol p))
                  (find (\<lambda>p. cell_at (game_board g) p = Blank) all_cells))"
  using assms by (simp add: get_hint_def split: option.splits prod.splits)

lemma hint_from_scan_none:
  assumes "solution_board (game s) = Some sol"
    and "find (\<lambda>p. cell_at (game_board (game s)) p = Blank) all_cells = None"
  shows "hint_from_scan s = (s, [StatusNoEmpty])"
  using assms by (simp add: hint_from_scan_def get_hint_session)

lemma hint_from_scan_some:
  assumes inv: "session_inv s" and sol: "solution_board (game s) = Some sol"
    and f: "find (\<lambda>p. cell_at (game_board (game s)) p = Blank) all_cells = Some (row, col)"
  shows "hint_from_scan s =
           (s\<lparr>game := (game s)\<lparr>game_board := grid_upd (game_board (game s)) (nat row) (nat col)
                                                (Num (cell_at sol (row, col))),
                                 hints_used := hints_used (game s) + 1\<rparr>,
               cells := grid_upd (cells s) (nat row) (nat col) (no_flags\<lparr>is_hint := True\<rparr>),
               selected_cell := Some (row, col)\<rparr>,
            [StatusHint (cell_at sol (row, col)) row col])"
proof -
  have rc: "(row, col) \<in> set all_cells"
    using find_all_cells [OF f] by simp
  have look: "grid_get (grid_upd (cells s) (nat row) (nat col) (no_flags\<lparr>is_hint := True\<rparr>)) pr pc
                = Inr (cell_at (grid_upd (cells s) (nat row) (nat col) (no_flags\<lparr>is_hint := True\<rparr>)) (pr, pc))"
    if "selected_cell s = Some (pr, pc)" for pr pc
    using session_invD(6) [OF inv that] is_9x9_grid_upd [OF session_invD(2) [OF inv]]
    by (simp add: grid_get_9x9)
  show ?thesis
  proof (cases "selected_cell s")
    case None
    with sol f show ?thesis
      by (simp add: hint_from_scan_def get_hint_session
          reveal_session [OF session_invD(2) [OF inv] session_invD(1) [OF inv] rc])
  next
    case (Some p)
    obtain pr pc where p: "p = (pr, pc)" by (cases p)
    from sol f Some p look [of pr pc] show ?thesis
      by (simp add: hint_from_scan_def get_hint_session
          reveal_session [OF session_invD(2) [OF inv] session_invD(1) [OF inv] rc])
  qed
qed

lemma show_hint_selected_blank:
  assumes inv: "session_inv s" and sol: "solution_board (game s) = Some sol"
    and sel: "selected_cell s = Some (row, col)"
    and blank: "cell_at (game_board (game s)) (row, col) = Blank"
  shows "show_hint s =
           (s\<lparr>game := (game s)\<lparr>game_board := grid_upd (game_board (game s)) (nat row) (nat col)
                                                (Num (cell_at sol (row, col))),
                                 hints_used := hints_used (game s) + 1\<rparr>,
               cells := grid_upd (cells s) (nat row) (nat col) (no_flags\<lparr>is_hint := True\<rparr>)\<rparr>,
            [StatusHint (cell_at sol (row, col)) row col])"
proof -
  have rc: "(row, col) \<in> set all_cells"
    using session_invD(6) [OF inv sel] by simp
  have s9: "is_9x9 sol"
    using session_invD(4) [OF inv] sol by simp
  show ?thesis
    using sol sel blank
    by (simp add: show_hint_def grid_get_9x9 [OF session_invD(1) [OF inv] rc] grid_get_9x9 [OF s9 rc]
        reveal_session [OF session_invD(2) [OF inv] session_invD(1) [OF inv] rc])
qed

lemma show_hint_scan:
  assumes inv: "session_inv s"
    and "selected_cell s = None \<or> (\<exists>p n. selected_cell s = Some p \<and> cell_at (game_board (game s)) p = Num n)"
  shows "show_hint s = hint_from_scan s"
proof (cases "selected_cell s")
  case None
  then show ?thesis by (simp add: show_hint_def)
next
  case (Some p)
  obtain row col where p: "p = (row, col)" by (cases p)
  have rc: "(row, col) \<in> set all_cells"
    using session_invD(6) [OF inv Some] by (simp add: p)
  from assms(2) Some obtain n where "cell_at (game_board (game s)) (row, col) = Num n"
    by (auto simp: p)
  then show ?thesis
    using Some p by (simp add: show_hint_def grid_get_9x9 [OF session_invD(1) [OF inv] rc])
qed

subsection \<open>The session invariant is kept\<close>

lemma session_inv_step:
  assumes inv: "session_inv s"
    and sol: "solution_board (game s') = solution_board (game s)"
    and imm: "immutable_cells (game s') = immutable_cells (game s)"
    and cells: "is_9x9 (cells s')"
    and board: "game_board (game s') = game_board (game s) \<or>
       (\<exists>r c v. (r, c) \<in> set all_cells \<and> (r, c) \<notin> immutable_cells (game s) \<and>
          game_board (game s') = grid_upd (game_board (game s)) (nat r) (nat c) v)"
    and sel: "selected_cell s' = None \<or>
       (\<exists>p. selected_cell s' = Some p \<and> p \<in> set all_cells \<and> p \<notin> immutable_cells (game s))"
  shows "session_inv s' \<and> same_puzzle s s'"
proof -
  obtain sl where sl: "solution_board (game s) = Some sl" "is_9x9 sl"
    using session_invD(4) [OF inv] by blast
  have b9: "is_9x9 (game_board (game s'))"
    using board session_invD(1) [OF inv] by (auto simp: is_9x9_grid_upd)
  have fixed: "cell_at (game_board (game s')) p = Num (cell_at sl p)"
    if p: "p \<in> immutable_cells (game s)" for p
  proof -
    have old: "cell_at (game_board (game s)) p = Num (cell_at sl p)"
      using inv sl(1) p by (auto simp: session_inv_def intro: fixed_cells_okD)
    have pin: "p \<in> set all_cells"
      using session_invD(5) [OF inv] p by blast
    from board show ?thesis
    proof
      assume "game_board (game s') = game_board (game s)"
      with old show ?thesis by simp
    next
      assume "\<exists>r c v. (r, c) \<in> set all_cells \<and> (r, c) \<notin> immutable_cells (game s) \<and>
          game_board (game s') = grid_upd (game_board (game s)) (nat r) (nat c) v"
      then obtain r c v where rc: "(r, c) \<in> set all_cells" "(r, c) \<notin> immutable_cells (game s)"
        and eq: "game_board (game s') = grid_upd (game_board (game s)) (nat r) (nat c) v"
        by blast
      have "p \<noteq> (r, c)" using p rc(2) by blast
      then show ?thesis
        using old by (simp add: eq cell_at_grid_upd [OF session_invD(1) [OF inv] rc(1) pin])
    qed
  qed
  have "wf_master s'"
    using b9 cells sol sl imm session_invD(3) [OF inv] by (simp add: wf_master_def)
  moreover have "fixed_cells_ok s'"
    using sol sl imm session_invD(5) [OF inv] fixed by (simp add: fixed_cells_ok_def list_all_iff)
  moreover have "selection_ok s'"
    using sel imm by (auto simp: selection_ok_def)
  ultimately show ?thesis using sol imm by (simp add: session_inv_def same_puzzle_def)
qed

lemma same_puzzle_refl [simp]: "same_puzzle s s"
  by (simp add: same_puzzle_def)

lemma same_puzzle_trans: "same_puzzle s s' \<Longrightarrow> same_puzzle s' s'' \<Longrightarrow> same_puzzle s s''"
  by (simp add: same_puzzle_def)

lemma blank_not_immutable:
  assumes "session_inv s" and "cell_at (game_board (game s)) p = Blank"
  shows "p \<notin> immutable_cells (game s)"
proof
  assume "p \<in> immutable_cells (game s)"
  moreover obtain sl where "solution_board (game s) = Some sl"
    using session_invD(4) [OF assms(1)] by blast
  ultimately have "cell_at (game_board (game s)) p = Num (cell_at sl p)"
    using assms(1) by (auto simp: session_inv_def intro: fixed_cells_okD)
  with assms(2) show False by simp
qed

lemma cell_clicked_inv:
  assumes "session_inv s" and "(row, col) \<in> set all_cells"
  shows "session_inv (fst (cell_clicked row col s)) \<and> same_puzzle s (fst (cell_clicked row col s))"
  unfolding cell_clicked_session [OF assms]
  by (rule session_inv_step [OF assms(1)])
    (use assms session_invD(2) [OF assms(1)] in auto)

lemma number_clicked_inv:
  assumes inv: "session_inv s"
  shows "session_inv (fst (number_clicked number s)) \<and> same_puzzle s (fst (number_clicked number s))"
proof (cases "selected_cell s")
  case None
  then show ?thesis using inv by (simp add: number_clicked_def)
next
  case (Some p)
  obtain row col where p: "p = (row, col)" by (cases p)
  note sel = Some [unfolded p]
  have rc: "(row, col) \<in> set all_cells" "(row, col) \<notin> immutable_cells (game s)"
    using session_invD(6) [OF inv sel] by simp_all
  obtain sl where sl: "solution_board (game s) = Some sl" "is_9x9 sl"
    using session_invD(4) [OF inv] by blast
  note c9 = session_invD(2) [OF inv] and b9 = session_invD(1) [OF inv]
  note valid = is_valid_move_session [OF sl rc]
  have selok: "\<exists>q. Some (row, col) = Some q \<and> q \<in> set all_cells \<and> q \<notin> immutable_cells (game s)"
    using rc by simp
  show ?thesis
  proof (cases number)
    case Blank
    show ?thesis
      unfolding Blank number_clicked_erase [OF c9 b9 sel rc(1)]
      by (rule session_inv_step [OF inv])
        (use rc sel c9 in \<open>auto simp: finish_entry_fst is_9x9_grid_upd\<close>)
  next
    case (Num n)
    show ?thesis
    proof (cases "cell_at sl (row, col) = n")
      case True
      then have v: "is_valid_move (game s) row col n = Inr True"
        using valid by simp
      show ?thesis
        unfolding Num number_clicked_correct [OF c9 b9 sel rc(1) v]
        by (rule session_inv_step [OF inv])
          (use rc sel c9 in \<open>auto simp: finish_entry_fst is_9x9_grid_upd\<close>)
    next
      case False
      then have v: "is_valid_move (game s) row col n = Inr False"
        using valid by simp
      show ?thesis
        unfolding Num number_clicked_incorrect [OF c9 b9 sel rc(1) v]
        by (rule session_inv_step [OF inv])
          (use rc sel c9 in \<open>auto simp: finish_entry_fst is_9x9_grid_upd\<close>)
    qed
  qed
qed

lemma hint_from_scan_inv:
  assumes inv: "session_inv s"
  shows "session_inv (fst (hint_from_scan s)) \<and> same_puzzle s (fst (hint_from_scan s))"
proof -
  obtain sl where sl: "solution_board (game s) = Some sl" "is_9x9 sl"
    using session_invD(4) [OF inv] by blast
  show ?thesis
  proof (cases "find (\<lambda>p. cell_at (game_board (game s)) p = Blank) all_cells")
    case None
    then show ?thesis using inv by (simp add: hint_from_scan_none [OF sl(1)])
  next
    case (Some p)
    obtain row col where p: "p = (row, col)" by (cases p)
    note f = Some [unfolded p]
    have rc: "(row, col) \<in> set all_cells" "cell_at (game_board (game s)) (row, col) = Blank"
      using find_all_cells [OF f] by simp_all
    have nf: "(row, col) \<notin> immutable_cells (game s)"
      using blank_not_immutable [OF inv rc(2)] .
    show ?thesis
      unfolding hint_from_scan_some [OF inv sl(1) f]
      by (rule session_inv_step [OF inv])
        (use rc nf session_invD(2) [OF inv] in \<open>auto simp: is_9x9_grid_upd\<close>)
  qed
qed

lemma show_hint_inv:
  assumes inv: "session_inv s"
  shows "session_inv (fst (show_hint s)) \<and> same_puzzle s (fst (show_hint s))"
proof -
  obtain sl where sl: "solution_board (game s) = Some sl" "is_9x9 sl"
    using session_invD(4) [OF inv] by blast
  consider (scan) "selected_cell s = None \<or>
      (\<exists>p n. selected_cell s = Some p \<and> cell_at (game_board (game s)) p = Num n)"
    | (own) row col where "selected_cell s = Some (row, col)"
        "cell_at (game_board (game s)) (row, col) = Blank"
    by (cases "selected_cell s"; cases "cell_at (game_board (game s)) (the (selected_cell s))") auto
  then show ?thesis
  proof cases
    case scan
    then show ?thesis
      using hint_from_scan_inv [OF inv] by (simp add: show_hint_scan [OF inv])
  next
    case own
    have rc: "(row, col) \<in> set all_cells" "(row, col) \<notin> immutable_cells (game s)"
      using session_invD(6) [OF inv own(1)] by simp_all
    show ?thesis
      unfolding show_hint_selected_blank [OF inv sl(1) own]
      by (rule session_inv_step [OF inv])
        (use rc own(1) session_invD(2) [OF inv] in \<open>auto simp: is_9x9_grid_upd\<close>)
  qed
qed

lemma step_inv:
  "session_inv s \<Longrightarrow> event_in_range e \<Longrightarrow>
   session_inv (fst (step s e)) \<and> same_puzzle s (fst (step s e))"
  by (cases e) (simp_all add: cell_clicked_inv number_clicked_inv show_hint_inv)

lemma fst_run_Cons: "fst (run s (e # es)) = fst (run (fst (step s e)) es)"
  by (simp split: prod.splits)

lemma snd_run_Cons: "snd (run s (e # es)) = snd (step s e) @ snd (run (fst (step s e)) es)"
  by (simp split: prod.splits)

lemma fst_run_append: "fst (run s (es @ es')) = fst (run (fst (run s es)) es')"
  by (induction es arbitrary: s) (simp_all add: fst_run_Cons del: run.simps(2))

lemma run_inv:
  "session_inv s \<Longrightarrow> list_all event_in_range es \<Longrightarrow>
   session_inv (fst (run s es)) \<and> same_puzzle s (fst (run s es))"
proof (induction es arbitrary: s)
  case Nil
  then show ?case by simp
next
  case (Cons e es)
  have first: "session_inv (fst (step s e))" "same_puzzle s (fst (step s e))"
    using Cons.prems step_inv [of s e] by simp_all
  from Cons.IH [OF first(1)] Cons.prems(2) first(2) show ?case
    by (auto simp: fst_run_Cons simp del: run.simps(2) intro: same_puzzle_trans)
qed

subsection \<open>A new game is a well-formed session\<close>

lemma all_cells_product: "all_cells = List.product [0..8] [0..8]"
  by (simp add: all_cells_def product_concat_map)

lemma distinct_all_cells: "distinct all_cells"
  by (simp add: all_cells_product distinct_product)

lemma length_all_cells: "length all_cells = 81"
  by (simp add: all_cells_product)

lemma card_all_cells: "card (set all_cells) = 81"
  using distinct_card [OF distinct_all_cells] by (simp add: length_all_cells)

lemma shuffle_all_cells:
  assumes "is_shuffle_of all_cells drawn"
  shows "set drawn = set all_cells" and "distinct drawn" and "length drawn = 81"
proof -
  have m: "mset drawn = mset all_cells"
    using assms by (simp add: is_shuffle_of_def)
  show "set drawn = set all_cells"
    using m by (rule mset_eq_setD)
  show "distinct drawn"
    using mset_eq_imp_distinct_iff [OF m] distinct_all_cells by simp
  show "length drawn = 81"
    using mset_eq_length [OF m] by (simp add: length_all_cells)
qed

lemma drawn_prefix:
  assumes "is_shuffle_of all_cells drawn" and "0 \<le> k" and "k \<le> 81"
  shows "set (take (nat k) drawn) \<subseteq> set all_cells" and "distinct (take (nat k) drawn)"
    and "int (card (set (take (nat k) drawn))) = k"
proof -
  note d = shuffle_all_cells [OF assms(1)]
  show "set (take (nat k) drawn) \<subseteq> set all_cells"
    using set_take_subset [of "nat k" drawn] by (simp add: d(1))
  show dist: "distinct (take (nat k) drawn)"
    using d(2) by (rule distinct_take)
  show "int (card (set (take (nat k) drawn))) = k"
    using distinct_card [OF dist] assms(2,3) by (simp add: d(3))
qed

lemma is_9x9_map: "is_9x9 g \<Longrightarrow> is_9x9 (map (map f) g)"
  by (simp add: is_9x9_def list_all_iff)

lemma cell_at_map:
  assumes "is_9x9 g" and "p \<in> set all_cells"
  shows "cell_at (map (map f) g) p = f (cell_at g p)"
proof -
  obtain r c where p: "p = (r, c)" by (cases p)
  have "nat r < length g" and "nat c < length (g ! nat r)"
    using assms all_cells_nat [of r c] by (simp_all add: p is_9x9_length is_9x9_row)
  then show ?thesis by (simp add: cell_at_def p)
qed

lemma blank_cells_9x9: "is_9x9 b \<Longrightarrow> is_9x9 (blank_cells ps b)"
  by (induction ps b rule: blank_cells.induct) (simp_all add: is_9x9_grid_upd)

lemma cell_at_blank_cells:
  "is_9x9 b \<Longrightarrow> set ps \<subseteq> set all_cells \<Longrightarrow> p \<in> set all_cells \<Longrightarrow>
   cell_at (blank_cells ps b) p = (if p \<in> set ps then Blank else cell_at b p)"
proof (induction ps b rule: blank_cells.induct)
  case (1 b)
  then show ?case by simp
next
  case (2 r c rest b)
  have rc: "(r, c) \<in> set all_cells" using "2.prems"(2) by simp
  have "cell_at (blank_cells rest (grid_upd b (nat r) (nat c) Blank)) p =
          (if p \<in> set rest then Blank else cell_at (grid_upd b (nat r) (nat c) Blank) p)"
    using "2.prems" by (intro "2.IH") (simp_all add: is_9x9_grid_upd)
  then show ?case
    using cell_at_grid_upd [OF "2.prems"(1) rc "2.prems"(3), of Blank] by auto
qed

lemma generate_sudoku_9x9:
  assumes "valid_shuffles sh"
  shows "is_9x9 (generate_sudoku sh)"
proof -
  from assms have "length (band_lines (row_groups sh) (row_inner sh)) = 9"
    and "length (band_lines (col_groups sh) (col_inner sh)) = 9"
    by (simp_all add: valid_shuffles_def band_lines_shape(1))
  then show ?thesis
    by (simp add: generate_sudoku_def Let_def is_9x9_def list_all_iff)
qed


lemma create_game_board_ok:
  assumes n: "0 \<le> n"
  shows "create_game_board sh drawn n g =
           (g\<lparr>solution_board := Some (generate_sudoku sh),
              game_board := blank_cells (take (nat (min n 81)) drawn) (map (map Num) (generate_sudoku sh)),
              immutable_cells := set all_cells - set (take (nat (min n 81)) drawn),
              mistakes := 0, hints_used := 0, empty_cells := n\<rparr>, None)"
  using n by (simp add: create_game_board_def random_sample_def Let_def length_all_cells)

lemma create_game_board_negative:
  "n < 0 \<Longrightarrow> snd (create_game_board sh drawn n g) = Some ValueError"
  by (simp add: create_game_board_def random_sample_def Let_def)

lemma new_game_session:
  assumes sh: "valid_shuffles sh" and n: "0 \<le> adjusted_empty_cells slider d"
    and drawn: "is_shuffle_of all_cells drawn"
    and c9: "is_9x9 (cells s)"
    and picked: "picked = take (nat (min (adjusted_empty_cells slider d) 81)) drawn"
  shows "session_inv (fst (new_game slider d sh drawn s))"
    and "solution_board (game (fst (new_game slider d sh drawn s))) = Some (generate_sudoku sh)"
    and "immutable_cells (game (fst (new_game slider d sh drawn s))) = set all_cells - set picked"
    and "game_board (game (fst (new_game slider d sh drawn s)))
           = blank_cells picked (map (map Num) (generate_sudoku sh))"
    and "mistakes (game (fst (new_game slider d sh drawn s))) = 0"
    and "hints_used (game (fst (new_game slider d sh drawn s))) = 0"
    and "selected_cell (fst (new_game slider d sh drawn s)) = None"
    and "max_mistakes (game (fst (new_game slider d sh drawn s))) = max_mistakes (game s)"
proof -
  let ?s' = "fst (new_game slider d sh drawn s)"
  note cg = create_game_board_ok [OF n]
  show sol: "solution_board (game ?s') = Some (generate_sudoku sh)"
    and imm: "immutable_cells (game ?s') = set all_cells - set picked"
    and brd: "game_board (game ?s') = blank_cells picked (map (map Num) (generate_sudoku sh))"
    and "mistakes (game ?s') = 0" and "hints_used (game ?s') = 0"
    and sel: "selected_cell ?s' = None"
    and "max_mistakes (game ?s') = max_mistakes (game s)"
    by (simp_all add: new_game_def cg picked)
  have cs: "cells ?s' = map (map (\<lambda>_. no_flags)) (cells s)"
    by (simp add: new_game_def cg)
  note s9 = generate_sudoku_9x9 [OF sh]
  have sub: "set picked \<subseteq> set all_cells"
    unfolding picked using drawn n by (intro drawn_prefix(1)) simp_all
  have b9: "is_9x9 (map (map Num) (generate_sudoku sh))"
    using s9 by (rule is_9x9_map)
  have "wf_master ?s'"
    by (simp add: wf_master_def sol imm brd cs s9 blank_cells_9x9 [OF b9] is_9x9_map [OF c9])
  moreover have "fixed_cells_ok ?s'"
    by (auto simp: fixed_cells_ok_def sol imm brd list_all_iff
        cell_at_blank_cells [OF b9 sub] cell_at_map [OF s9])
  moreover have "selection_ok ?s'"
    by (simp add: selection_ok_def sel)
  ultimately show "session_inv ?s'"
    by (simp add: session_inv_def)
qed

subsection \<open>The sample session\<close>

lemma demo_shuffles_valid: "valid_shuffles demo_shuffles"
  by (simp add: demo_shuffles_def valid_shuffles_def is_shuffle_of_def r_base_def BASE_def SIDE_def
      upt3 upto9)

lemma demo_drawn_shuffle: "is_shuffle_of all_cells demo_drawn"
  by (simp add: is_shuffle_of_def demo_drawn_def)

lemma demo_session_facts:
  shows "session_inv demo_session"
    and "solution_board (game demo_session) = Some (generate_sudoku demo_shuffles)"
    and "immutable_cells (game demo_session) = set all_cells - set demo_picked"
    and "selected_cell demo_session = None"
    and "mistakes (game demo_session) = 0"
proof -
  have n: "0 \<le> adjusted_empty_cells 40 Medium"
    and p: "demo_picked = take (nat (min (adjusted_empty_cells 40 Medium) 81)) demo_drawn"
    by (simp_all add: adjusted_empty_cells_def demo_picked_def)
  have c: "is_9x9 (cells init_master)"
    by (simp add: init_master_def is_9x9_def list_all_iff)
  note ng = new_game_session [OF demo_shuffles_valid n demo_drawn_shuffle c p]
  show "session_inv demo_session"
    and "solution_board (game demo_session) = Some (generate_sudoku demo_shuffles)"
    and "immutable_cells (game demo_session) = set all_cells - set demo_picked"
    and "selected_cell demo_session = None"
    and "mistakes (game demo_session) = 0"
    unfolding demo_session_def by (rule ng)+
qed

lemma demo_cells:
  "(8, 8) \<in> set all_cells - set demo_picked" "(0, 0) \<in> set all_cells" "(0, 0) \<in> set demo_picked"
  by code_simp+

subsection \<open>Fixed cells\<close>

lemma events_of_in_range: "operation_in_range x \<Longrightarrow> list_all event_in_range (events_of x)"
  by (cases x) simp_all

lemma operations_in_range:
  "list_all operation_in_range ops \<Longrightarrow> list_all event_in_range (concat (map events_of ops))"
  by (induction ops) (simp_all add: events_of_in_range)

text \<open>
  Claim C2, as stated, fails: no handler checks that a coordinate lies on the board, and
  Python takes an index from -9 to -1 from the end. In the sample session the cell
  (8, 8) is immutable and holds the solution's 5; the one-step sequence
  \<open>attempt_place (-1, -1) 1\<close> leaves a 1 there, and \<open>clear (-1, -1)\<close> empties it.
\<close>

theorem fixed_cell_overwritten_counterexample:
  "(8, 8) \<in> immutable_cells (game demo_session) \<and>
   cell_at (generate_sudoku demo_shuffles) (8, 8) = 5 \<and>
   cell_at (game_board (game demo_session)) (8, 8) = Num 5 \<and>
   (8, 8) \<in> immutable_cells (game (apply_operations demo_session [AttemptPlace (- 1) (- 1) 1])) \<and>
   solution_board (game (apply_operations demo_session [AttemptPlace (- 1) (- 1) 1]))
     = Some (generate_sudoku demo_shuffles) \<and>
   cell_at (game_board (game (apply_operations demo_session [AttemptPlace (- 1) (- 1) 1]))) (8, 8)
     = Num 1 \<and>
   (8, 8) \<in> immutable_cells (game (apply_operations demo_session [Clear (- 1) (- 1)])) \<and>
   cell_at (game_board (game (apply_operations demo_session [Clear (- 1) (- 1)]))) (8, 8) = Blank"
  by code_simp

text \<open>
  Claim C2, amended. For every session and every finite sequence of \<open>attempt_place\<close>,
  \<open>clear\<close> and \<open>hint\<close> operations whose coordinates are cells of the board (both
  components from 0 to 8), every immutable cell still holds the solution's value
  afterwards (and the solution and the set of immutable cells are the same).
\<close>

theorem fixed_cells_keep_solution:
  assumes "session_inv s" and "list_all operation_in_range ops"
    and "solution_board (game s) = Some sol" and "p \<in> immutable_cells (game s)"
  shows "immutable_cells (game (apply_operations s ops)) = immutable_cells (game s) \<and>
         solution_board (game (apply_operations s ops)) = Some sol \<and>
         cell_at (game_board (game (apply_operations s ops))) p = Num (cell_at sol p)"
proof -
  let ?s' = "apply_operations s ops"
  have inv: "session_inv ?s'" and same: "same_puzzle s ?s'"
    using run_inv [OF assms(1) operations_in_range [OF assms(2)]]
    by (simp_all add: apply_operations_def)
  have imm: "immutable_cells (game ?s') = immutable_cells (game s)"
    and sol: "solution_board (game ?s') = Some sol"
    using same assms(3) by (simp_all add: same_puzzle_def)
  have "fixed_cells_ok ?s'"
    using inv by (simp add: session_inv_def)
  from fixed_cells_okD [OF this sol] assms(4) imm sol show ?thesis
    by simp
qed

theorem fixed_cells_keep_solution_witness:
  "session_inv demo_session \<and>
   list_all operation_in_range [AttemptPlace 0 0 9, Hint, Clear 0 0, AttemptPlace 8 8 1] \<and>
   solution_board (game demo_session) = Some (generate_sudoku demo_shuffles) \<and>
   (8, 8) \<in> immutable_cells (game demo_session) \<and>
   cell_at (game_board (game (apply_operations demo_session
      [AttemptPlace 0 0 9, Hint, Clear 0 0, AttemptPlace 8 8 1]))) (8, 8)
     = Num (cell_at (generate_sudoku demo_shuffles) (8, 8))"
proof -
  have r: "list_all operation_in_range [AttemptPlace 0 0 9, Hint, Clear 0 0, AttemptPlace 8 8 1]"
    by (simp add: all_cells_iff)
  have f: "(8, 8) \<in> immutable_cells (game demo_session)"
    using demo_cells(1) by (simp only: demo_session_facts(3))
  from fixed_cells_keep_solution [OF demo_session_facts(1) r demo_session_facts(2) f]
    demo_session_facts(1,2) r f
  show ?thesis by simp
qed

subsection \<open>Placing a number\<close>

lemma attempt_place_unfold:
  "attempt_place row col v s =
     (fst (number_clicked (Num v) (fst (cell_clicked row col s))),
      snd (cell_clicked row col s) @ snd (number_clicked (Num v) (fst (cell_clicked row col s))))"
  by (simp add: attempt_place_def split: prod.splits)




subsection \<open>Placing on a fixed cell or off the board\<close>

text \<open>
  Claim C7, as stated, fails for coordinates outside the board: no handler checks the
  range, and Python takes an index from -9 to -1 from the end. In the sample session,
  placing a 1 at (-1, -1) is scored as a mistake and overwrites the immutable cell
  (8, 8), which held the solution's 5.
\<close>

theorem attempt_place_negative_index_counterexample:
  "(- 1, - 1) \<notin> set all_cells \<and>
   (8, 8) \<in> immutable_cells (game demo_session) \<and>
   cell_at (game_board (game demo_session)) (8, 8) = Num 5 \<and>
   cell_at (game_board (game (fst (attempt_place (- 1) (- 1) 1 demo_session)))) (8, 8) = Num 1 \<and>
   mistakes (game demo_session) = 0 \<and>
   mistakes (game (fst (attempt_place (- 1) (- 1) 1 demo_session))) = 1"
  by code_simp

text \<open>
  Claim C7, amended. For every session, \<open>attempt_place\<close> on an immutable cell, or on a
  coordinate with a component below -9 or above 8, changes neither the board nor the
  counters (nor anything else of the game, nor the widget flags), and is scored neither
  as correct nor as a mistake: \<open>cell_clicked\<close> refuses to select an immutable cell, and
  the widget lookup raises for such a coordinate off the board.
\<close>

theorem attempt_place_rejected:
  assumes inv: "session_inv s"
    and bad: "(row, col) \<in> immutable_cells (game s) \<or> row < - 9 \<or> 9 \<le> row \<or> col < - 9 \<or> 9 \<le> col"
  shows "game (fst (attempt_place row col v s)) = game s \<and>
         cells (fst (attempt_place row col v s)) = cells s \<and>
         snd (attempt_place row col v s) =
           (if (row, col) \<in> immutable_cells (game s) then [StatusFixed, StatusSelectFirst]
            else [Raised IndexError, Raised IndexError])"
proof (cases "(row, col) \<in> immutable_cells (game s)")
  case True
  then have rc: "(row, col) \<in> set all_cells"
    using session_invD(5) [OF inv] by blast
  have "cell_clicked row col s = (s\<lparr>selected_cell := None\<rparr>, [StatusFixed])"
    using True by (simp add: cell_clicked_session [OF inv rc])
  then show ?thesis
    using True by (simp add: attempt_place_unfold number_clicked_def)
next
  case False
  with bad have out: "row < - 9 \<or> 9 \<le> row \<or> col < - 9 \<or> 9 \<le> col"
    by simp
  let ?s1 = "s\<lparr>selected_cell := Some (row, col)\<rparr>"
  have click: "cell_clicked row col s = (?s1, [Raised IndexError])"
    by (rule cell_clicked_out_of_range [OF inv out])
  have "number_clicked (Num v) ?s1 = (?s1, [Raised IndexError])"
    using session_invD(2) [OF inv] out by (intro number_clicked_out_of_range) simp_all
  then show ?thesis
    using False by (simp add: attempt_place_unfold click)
qed

theorem attempt_place_rejected_witness:
  "session_inv demo_session \<and> (8, 8) \<in> immutable_cells (game demo_session) \<and>
   game (fst (attempt_place 8 8 1 demo_session)) = game demo_session \<and>
   snd (attempt_place 8 8 1 demo_session) = [StatusFixed, StatusSelectFirst]"
proof -
  have f: "(8, 8) \<in> immutable_cells (game demo_session)"
    using demo_cells(1) by (simp only: demo_session_facts(3))
  then have "(8, 8) \<in> immutable_cells (game demo_session) \<or> (8::int) < - 9 \<or> (9::int) \<le> 8
      \<or> (8::int) < - 9 \<or> (9::int) \<le> 8"
    by simp
  from attempt_place_rejected [OF demo_session_facts(1) this, of 1] demo_session_facts(1) f
  show ?thesis by simp
qed


subsection \<open>Hints\<close>

lemma sorted_wrt_before_product:
  "sorted_wrt (<) xs \<Longrightarrow> sorted_wrt (<) ys \<Longrightarrow> sorted_wrt before (List.product xs ys)"
proof (induction xs)
  case Nil
  then show ?case by simp
next
  case (Cons x xs)
  have "sorted_wrt before (map (Pair x) ys)"
    using Cons.prems(2) by (simp add: sorted_wrt_map before_def)
  moreover have "sorted_wrt before (List.product xs ys)"
    using Cons by simp
  moreover have "before q p" if "q \<in> set (map (Pair x) ys)" and "p \<in> set (List.product xs ys)" for q p
    using that Cons.prems(1) by (auto simp: before_def)
  ultimately show ?case
    by (simp add: sorted_wrt_append)
qed

lemma all_cells_row_major: "sorted_wrt before all_cells"
proof -
  have "sorted_wrt (<) [0..8::int]"
    by (simp add: strict_sorted_iff)
  then show ?thesis
    unfolding all_cells_product by (intro sorted_wrt_before_product)
qed

lemma before_irrefl: "\<not> before p p"
  by (simp add: before_def)

lemma before_asym: "before q p \<Longrightarrow> \<not> before p q"
  by (auto simp: before_def)

lemma find_first_in_order:
  assumes "sorted_wrt before xs" and "find P xs = Some p" and "q \<in> set xs" and "before q p"
  shows "\<not> P q"
  using assms
proof (induction xs)
  case Nil
  then show ?case by simp
next
  case (Cons x xs)
  show ?case
  proof (cases "P x")
    case True
    then have "p = x" using Cons.prems(2) by simp
    then have "q \<noteq> x" using Cons.prems(4) before_irrefl by blast
    then have "before x q" using Cons.prems(1,3) by auto
    with \<open>p = x\<close> Cons.prems(4) show ?thesis using before_asym by blast
  next
    case False
    show ?thesis
    proof (cases "q = x")
      case True
      with False show ?thesis by simp
    next
      case qx: False
      with Cons.prems False show ?thesis
        by (intro Cons.IH) simp_all
    qed
  qed
qed

text \<open>
  Claim C5. For every session with no cell selected, \<open>hint\<close> scans the board in
  row-major order. When no cell is empty it reports that, and the state, so also the
  hint counter, is unchanged. Otherwise there is an empty cell with no empty cell before
  it; the solution's value is written there and nowhere else, the hint counter grows by
  exactly 1, and the mistake counter is unchanged.
\<close>

theorem hint_reveals_first_empty:
  assumes inv: "session_inv s" and sol: "solution_board (game s) = Some sol"
    and sel: "selected_cell s = None"
  shows "if \<forall>p \<in> set all_cells. cell_at (game_board (game s)) p \<noteq> Blank
         then show_hint s = (s, [StatusNoEmpty])
         else \<exists>p \<in> set all_cells.
                cell_at (game_board (game s)) p = Blank \<and>
                (\<forall>q \<in> set all_cells. before q p \<longrightarrow> cell_at (game_board (game s)) q \<noteq> Blank) \<and>
                snd (show_hint s) = [StatusHint (cell_at sol p) (fst p) (snd p)] \<and>
                cell_at (game_board (game (fst (show_hint s)))) p = Num (cell_at sol p) \<and>
                (\<forall>q \<in> set all_cells. q \<noteq> p \<longrightarrow>
                   cell_at (game_board (game (fst (show_hint s)))) q = cell_at (game_board (game s)) q) \<and>
                hints_used (game (fst (show_hint s))) = hints_used (game s) + 1 \<and>
                mistakes (game (fst (show_hint s))) = mistakes (game s)"
proof -
  let ?P = "\<lambda>p. cell_at (game_board (game s)) p = Blank"
  have scan: "show_hint s = hint_from_scan s"
    using sel by (simp add: show_hint_def)
  show ?thesis
  proof (cases "find ?P all_cells")
    case None
    then have full: "\<forall>p \<in> set all_cells. cell_at (game_board (game s)) p \<noteq> Blank"
      by (auto simp: find_None_iff)
    then show ?thesis
      using hint_from_scan_none [OF sol None] by (simp add: scan)
  next
    case (Some p)
    obtain row col where p: "p = (row, col)" by (cases p)
    note f = Some [unfolded p]
    have rc: "(row, col) \<in> set all_cells" and blank: "?P (row, col)"
      using find_all_cells [OF f] by simp_all
    have first: "\<forall>q \<in> set all_cells. before q (row, col) \<longrightarrow> \<not> ?P q"
      using find_first_in_order [OF all_cells_row_major f] by blast
    note b9 = session_invD(1) [OF inv]
    have other: "\<forall>q \<in> set all_cells. q \<noteq> (row, col) \<longrightarrow>
        cell_at (grid_upd (game_board (game s)) (nat row) (nat col) (Num (cell_at sol (row, col)))) q
          = cell_at (game_board (game s)) q"
      by (simp add: cell_at_grid_upd [OF b9 rc])
    have here: "cell_at (grid_upd (game_board (game s)) (nat row) (nat col) (Num (cell_at sol (row, col))))
        (row, col) = Num (cell_at sol (row, col))"
      by (simp add: cell_at_grid_upd [OF b9 rc rc])
    have ne: "\<not> (\<forall>p \<in> set all_cells. cell_at (game_board (game s)) p \<noteq> Blank)"
      using rc blank by blast
    have ex: "\<exists>p \<in> set all_cells.
                cell_at (game_board (game s)) p = Blank \<and>
                (\<forall>q \<in> set all_cells. before q p \<longrightarrow> cell_at (game_board (game s)) q \<noteq> Blank) \<and>
                snd (show_hint s) = [StatusHint (cell_at sol p) (fst p) (snd p)] \<and>
                cell_at (game_board (game (fst (show_hint s)))) p = Num (cell_at sol p) \<and>
                (\<forall>q \<in> set all_cells. q \<noteq> p \<longrightarrow>
                   cell_at (game_board (game (fst (show_hint s)))) q = cell_at (game_board (game s)) q) \<and>
                hints_used (game (fst (show_hint s))) = hints_used (game s) + 1 \<and>
                mistakes (game (fst (show_hint s))) = mistakes (game s)"
      using rc blank first other here
      by (intro bexI [of _ "(row, col)"]) (simp_all add: scan hint_from_scan_some [OF inv sol f])
    show ?thesis
      unfolding if_not_P [OF ne] by (rule ex)
  qed
qed

theorem hint_reveals_first_empty_witness:
  "session_inv demo_session \<and>
   solution_board (game demo_session) = Some (generate_sudoku demo_shuffles) \<and>
   selected_cell demo_session = None \<and>
   cell_at (game_board (game demo_session)) (0, 0) = Blank \<and>
   (\<exists>p \<in> set all_cells.
      cell_at (game_board (game demo_session)) p = Blank \<and>
      snd (show_hint demo_session) = [StatusHint (cell_at (generate_sudoku demo_shuffles) p) (fst p) (snd p)] \<and>
      hints_used (game (fst (show_hint demo_session))) = hints_used (game demo_session) + 1)"
proof -
  have blank: "cell_at (game_board (game demo_session)) (0, 0) = Blank"
    by code_simp
  then have "\<not> (\<forall>p \<in> set all_cells. cell_at (game_board (game demo_session)) p \<noteq> Blank)"
    using demo_cells(2) by blast
  with hint_reveals_first_empty [OF demo_session_facts(1,2,4)] demo_session_facts(1,2,4) blank
  show ?thesis by auto
qed

subsection \<open>Masking\<close>

text \<open>
  Claim C6, as stated, fails: \<^verbatim>\<open>create_game_board\<close> does not clamp the request into
  20 to 60, it only caps it at 81 (\<^verbatim>\<open>min(empty_cells, 81)\<close>). A request of 81 masks all
  81 cells and leaves no immutable cell, a request of 5 masks 5 cells, and a negative
  request makes \<^verbatim>\<open>random.sample\<close> raise \<^verbatim>\<open>ValueError\<close>.
\<close>

theorem create_game_board_81_counterexample:
  "snd (create_game_board demo_shuffles demo_drawn 81 init_game) = None \<and>
   immutable_cells (fst (create_game_board demo_shuffles demo_drawn 81 init_game)) = {} \<and>
   empty_cells (fst (create_game_board demo_shuffles demo_drawn 81 init_game)) = 81 \<and>
   snd (create_game_board demo_shuffles demo_drawn 5 init_game) = None \<and>
   set all_cells - immutable_cells (fst (create_game_board demo_shuffles demo_drawn 5 init_game))
     = {(0, 0), (0, 1), (0, 2), (0, 3), (0, 4)} \<and>
   snd (create_game_board demo_shuffles demo_drawn (- 1) init_game) = Some ValueError"
  by code_simp

text \<open>
  Claim C6, amended. \<^verbatim>\<open>create_game_board\<close> masks \<^verbatim>\<open>min(empty_cells, 81)\<close> cells: for every
  request that is not negative, so for every request from 20 to 60, it does not fail,
  exactly that many distinct cells (at most 81) are masked, namely the first that
  \<^verbatim>\<open>random.sample\<close> draws, the immutable cells are exactly the other cells of the board,
  and a cell is empty when masked and holds the solution's value otherwise. The bounds
  20 and 60 are those of the caller: \<^verbatim>\<open>new_game\<close> passes a count from 20 to 60 whenever
  the slider is in that range, whatever the difficulty.
\<close>

theorem create_game_board_masks:
  assumes sh: "valid_shuffles sh" and n: "0 \<le> n"
    and drawn: "is_shuffle_of all_cells drawn"
  shows "(case create_game_board sh drawn n g of
            (g', err) \<Rightarrow>
              err = None \<and>
              immutable_cells g' = set all_cells - set (take (nat (min n 81)) drawn) \<and>
              distinct (take (nat (min n 81)) drawn) \<and>
              int (card (set all_cells - immutable_cells g')) = min n 81 \<and>
              int (card (immutable_cells g')) = 81 - min n 81 \<and>
              empty_cells g' = n \<and>
              solution_board g' = Some (generate_sudoku sh) \<and>
              (\<forall>p \<in> set all_cells.
                 cell_at (game_board g') p =
                   (if p \<in> immutable_cells g' then Num (cell_at (generate_sudoku sh) p)
                    else Blank))) \<and>
         (20 \<le> slider \<and> slider \<le> 60 \<longrightarrow>
            20 \<le> adjusted_empty_cells slider d \<and> adjusted_empty_cells slider d \<le> 60)"
proof -
  let ?picked = "take (nat (min n 81)) drawn"
  have k: "0 \<le> min n 81" "min n 81 \<le> 81"
    using n by simp_all
  note sub = drawn_prefix(1) [OF drawn k] and dist = drawn_prefix(2) [OF drawn k]
    and card = drawn_prefix(3) [OF drawn k]
  have masked: "set all_cells - (set all_cells - set ?picked) = set ?picked"
    using sub by blast
  have "card (set all_cells - set ?picked) = card (set all_cells) - card (set ?picked)"
    using sub by (intro card_Diff_subset) simp_all
  moreover have "card (set ?picked) \<le> card (set all_cells)"
    using sub by (intro card_mono) simp_all
  ultimately have rest: "int (card (set all_cells - set ?picked)) = 81 - min n 81"
    using card by (simp add: card_all_cells)
  note s9 = generate_sudoku_9x9 [OF sh]
  have b9: "is_9x9 (map (map Num) (generate_sudoku sh))"
    using s9 by (rule is_9x9_map)
  have board: "\<forall>p \<in> set all_cells.
      cell_at (blank_cells ?picked (map (map Num) (generate_sudoku sh))) p =
        (if p \<in> set all_cells - set ?picked then Num (cell_at (generate_sudoku sh) p) else Blank)"
    by (simp add: cell_at_blank_cells [OF b9 sub] cell_at_map [OF s9])
  have "20 \<le> slider \<and> slider \<le> 60 \<longrightarrow>
        20 \<le> adjusted_empty_cells slider d \<and> adjusted_empty_cells slider d \<le> 60"
    by (cases d) (simp_all add: adjusted_empty_cells_def)
  then show ?thesis
    using dist card rest board
    by (simp add: create_game_board_ok [OF n] masked)
qed

theorem create_game_board_masks_witness:
  "valid_shuffles demo_shuffles \<and> (0::int) \<le> 40 \<and> is_shuffle_of all_cells demo_drawn \<and>
   (20::int) \<le> 55 \<and> (55::int) \<le> 60 \<and>
   snd (create_game_board demo_shuffles demo_drawn 40 init_game) = None \<and>
   int (card (set all_cells
      - immutable_cells (fst (create_game_board demo_shuffles demo_drawn 40 init_game)))) = 40 \<and>
   int (card (immutable_cells (fst (create_game_board demo_shuffles demo_drawn 40 init_game)))) = 41 \<and>
   adjusted_empty_cells 55 Expert = 60"
proof -
  have a: "adjusted_empty_cells 55 Expert = 60"
    by (simp add: adjusted_empty_cells_def)
  from create_game_board_masks [OF demo_shuffles_valid _ demo_drawn_shuffle, of 40 init_game 55 Expert]
    demo_shuffles_valid demo_drawn_shuffle a
  show ?thesis
    by (auto split: prod.splits)
qed

subsection \<open>Saving and loading\<close>

lemma rebuild_9x9_id: "is_9x9 g \<Longrightarrow> rebuild_9x9 g = g"
proof -
  assume g: "is_9x9 g"
  have "map (\<lambda>c. g ! r ! c) [0..<9] = g ! r" if "r < 9" for r
    using map_nth [of "g ! r"] is_9x9_row [OF g that] by simp
  then have "rebuild_9x9 g = map (\<lambda>r. g ! r) [0..<9]"
    by (simp add: rebuild_9x9_def)
  also have "\<dots> = g"
    using map_nth [of g] is_9x9_length [OF g] by simp
  finally show ?thesis .
qed

lemma load_9x9_id: "is_9x9 g \<Longrightarrow> load_9x9 g = Inr g"
  by (simp add: load_9x9_def rebuild_9x9_id is_9x9_length is_9x9_row list_all_iff)

lemma grid_eqI:
  assumes a: "is_9x9 a" and b: "is_9x9 b"
    and eq: "\<And>p. p \<in> set all_cells \<Longrightarrow> cell_at a p = cell_at b p"
  shows "a = b"
proof (rule nth_equalityI)
  show "length a = length b"
    using a b by (simp add: is_9x9_length)
next
  fix i
  assume "i < length a"
  then have i: "i < 9" using a by (simp add: is_9x9_length)
  show "a ! i = b ! i"
  proof (rule nth_equalityI)
    show "length (a ! i) = length (b ! i)"
      using a b i by (simp add: is_9x9_row)
  next
    fix j
    assume "j < length (a ! i)"
    then have j: "j < 9" using a i by (simp add: is_9x9_row)
    have "(int i, int j) \<in> set all_cells"
      using i j by (simp add: all_cells_iff)
    from eq [OF this] show "a ! i ! j = b ! i ! j"
      by (simp add: cell_at_def)
  qed
qed

lemma restore_cells_all:
  assumes m: "is_9x9 m"
  shows "is_9x9 cs \<Longrightarrow> set ps \<subseteq> set all_cells \<Longrightarrow>
         \<exists>cs'. restore_cells (Some m) ps cs = (cs', None) \<and> is_9x9 cs' \<and>
           (\<forall>p \<in> set all_cells.
              cell_at cs' p = (if p \<in> set ps then flags_of_meta (cell_at m p) else cell_at cs p))"
proof (induction ps arbitrary: cs)
  case Nil
  then show ?case by simp
next
  case (Cons x ps)
  obtain r c where x: "x = (r, c)" by (cases x)
  have rc: "(r, c) \<in> set all_cells" using Cons.prems(2) by (simp add: x)
  have inb: "nat r < length m" "nat c < length (m ! nat r)" "m \<noteq> []"
    using m all_cells_nat [OF rc] is_9x9_length [OF m] by (auto simp: is_9x9_row)
  let ?cs1 = "grid_upd cs (nat r) (nat c) (flags_of_meta (m ! nat r ! nat c))"
  have step: "restore_cells (Some m) (x # ps) cs = restore_cells (Some m) ps ?cs1"
    using inb by (simp add: x Let_def)
  have "is_9x9 ?cs1" using Cons.prems(1) by (rule is_9x9_grid_upd)
  from Cons.IH [OF this] Cons.prems(2)
  obtain cs' where cs': "restore_cells (Some m) ps ?cs1 = (cs', None)" "is_9x9 cs'"
    "\<forall>p \<in> set all_cells.
       cell_at cs' p = (if p \<in> set ps then flags_of_meta (cell_at m p) else cell_at ?cs1 p)"
    by auto
  have "cell_at cs' p = (if p \<in> set (x # ps) then flags_of_meta (cell_at m p) else cell_at cs p)"
    if p: "p \<in> set all_cells" for p
    using cs'(3) p cell_at_grid_upd [OF Cons.prems(1) rc p]
    by (auto simp: x cell_at_def)
  with cs'(1,2) step show ?case by simp
qed

lemma flags_roundtrip: "flags_of_meta (Some (is_error f), Some (is_hint f)) = f"
  by (simp add: flags_of_meta_def)

lemma restore_saved_cells:
  assumes cs: "is_9x9 cs" and cs0: "is_9x9 cs0"
  shows "restore_cells (Some (map (map (\<lambda>f. (Some (is_error f), Some (is_hint f)))) cs)) all_cells cs0
           = (cs, None)"
proof -
  let ?m = "map (map (\<lambda>f. (Some (is_error f), Some (is_hint f)))) cs"
  have m: "is_9x9 ?m" using cs by (rule is_9x9_map)
  from restore_cells_all [OF m cs0 subset_refl]
  obtain cs' where cs': "restore_cells (Some ?m) all_cells cs0 = (cs', None)" "is_9x9 cs'"
    "\<forall>p \<in> set all_cells. cell_at cs' p = flags_of_meta (cell_at ?m p)"
    by auto
  have "cs' = cs"
    using cs'(2) cs
  proof (rule grid_eqI)
    fix p :: "int \<times> int"
    assume p: "p \<in> set all_cells"
    then show "cell_at cs' p = cell_at cs p"
      using cs'(3) by (simp add: cell_at_map [OF cs p] flags_roundtrip)
  qed
  with cs'(1) show ?thesis by simp
qed


lemma save_game_wf:
  assumes "wf_master s"
  shows "save_game s =
     \<lparr>p_solution_board = solution_board (game s),
      p_game_board = Some (game_board (game s)),
      p_immutable_cells = Some (sorted_list_of_set (immutable_cells (game s))),
      p_mistakes = Some (mistakes (game s)),
      p_hints_used = Some (hints_used (game s)),
      p_empty_cells = Some (empty_cells (game s)),
      p_seconds = Some (seconds s),
      p_is_timer_running = Some (is_timer_running s),
      p_cells_meta = Some (map (map (\<lambda>f. (Some (is_error f), Some (is_hint f)))) (cells s))\<rparr>"
proof -
  have "map_option rebuild_9x9 (solution_board (game s)) = solution_board (game s)"
    using assms by (cases "solution_board (game s)") (simp_all add: wf_master_def rebuild_9x9_id)
  then show ?thesis
    using assms by (simp add: save_game_def wf_master_def rebuild_9x9_id)
qed

lemma load_saved_game:
  assumes wf: "wf_master s" and c0: "is_9x9 (cells s0)"
  shows "load_game (save_game s) s0 =
     (s0\<lparr>game := (game s0)
            \<lparr>solution_board := solution_board (game s),
             game_board := game_board (game s),
             immutable_cells := immutable_cells (game s),
             mistakes := mistakes (game s),
             hints_used := hints_used (game s),
             empty_cells := empty_cells (game s)\<rparr>,
          seconds := seconds s, is_timer_running := is_timer_running s,
          cells := cells s, selected_cell := None\<rparr>,
      [StatusLoaded])"
proof -
  have b: "load_9x9 (game_board (game s)) = Inr (game_board (game s))"
    using wf by (simp add: wf_master_def load_9x9_id)
  have sol: "(case solution_board (game s) of None \<Rightarrow> Inr None
              | Some sol \<Rightarrow> (case load_9x9 sol of Inl e \<Rightarrow> Inl e | Inr a \<Rightarrow> Inr (Some a)))
             = Inr (solution_board (game s))"
    using wf by (cases "solution_board (game s)") (simp_all add: wf_master_def load_9x9_id)
  have imm: "set (sorted_list_of_set (immutable_cells (game s))) = immutable_cells (game s)"
    using wf by (simp add: wf_master_def)
  have cells: "restore_cells (Some (map (map (\<lambda>f. (Some (is_error f), Some (is_hint f)))) (cells s)))
      all_cells (cells s0) = (cells s, None)"
    using wf c0 by (intro restore_saved_cells) (simp_all add: wf_master_def)
  show ?thesis
    unfolding save_game_wf [OF wf]
    by (simp add: load_game_def Let_def sol b imm cells)
qed

text \<open>
  Claim C8. Loading what \<^verbatim>\<open>save_game\<close> wrote for a session and saving again, with
  nothing in between, writes the same dictionary, field for field; the board, the
  solution, the immutable cells, both counters and the flags of every cell are those
  of the saved session.
\<close>

theorem save_load_roundtrip:
  assumes wf: "wf_master s" and c0: "is_9x9 (cells s0)"
  shows "snd (load_game (save_game s) s0) = [StatusLoaded] \<and>
         save_game (fst (load_game (save_game s) s0)) = save_game s \<and>
         game_board (game (fst (load_game (save_game s) s0))) = game_board (game s) \<and>
         solution_board (game (fst (load_game (save_game s) s0))) = solution_board (game s) \<and>
         immutable_cells (game (fst (load_game (save_game s) s0))) = immutable_cells (game s) \<and>
         mistakes (game (fst (load_game (save_game s) s0))) = mistakes (game s) \<and>
         hints_used (game (fst (load_game (save_game s) s0))) = hints_used (game s) \<and>
         cells (fst (load_game (save_game s) s0)) = cells s"
proof -
  let ?s1 = "fst (load_game (save_game s) s0)"
  note l = load_saved_game [OF wf c0]
  have wf1: "wf_master ?s1"
    using wf by (simp add: l wf_master_def)
  note l' = l [unfolded save_game_wf [OF wf]]
  have "save_game ?s1 = save_game s"
    by (subst save_game_wf [OF wf1]) (simp add: l l' save_game_wf [OF wf])
  then show ?thesis by (simp add: l)
qed

lemma session_inv_wf: "session_inv s \<Longrightarrow> wf_master s"
  by (simp add: session_inv_def)

theorem save_load_roundtrip_witness:
  "wf_master (fst (attempt_place 0 0 7 demo_session)) \<and> is_9x9 (cells init_master) \<and>
   save_game (fst (load_game (save_game (fst (attempt_place 0 0 7 demo_session))) init_master))
     = save_game (fst (attempt_place 0 0 7 demo_session)) \<and>
   is_error (cell_at (cells (fst (attempt_place 0 0 7 demo_session))) (0, 0))"
proof -
  have "list_all event_in_range [CellClicked 0 0, NumberClicked (Num 7)]"
    by (simp add: all_cells_iff)
  from run_inv [OF demo_session_facts(1) this]
  have wf: "wf_master (fst (attempt_place 0 0 7 demo_session))"
    by (simp add: attempt_place_def session_inv_wf del: run.simps)
  have c: "is_9x9 (cells init_master)"
    by (simp add: init_master_def is_9x9_def list_all_iff)
  have e: "is_error (cell_at (cells (fst (attempt_place 0 0 7 demo_session))) (0, 0))"
    by code_simp
  from save_load_roundtrip [OF wf c] wf c e show ?thesis by simp
qed

subsection \<open>Loading a file without a board\<close>

text \<open>
  Claim C9: a load whose file has no \<^verbatim>\<open>game_board\<close> must leave the active session
  untouched. \<^verbatim>\<open>load_game\<close> reports the error, but it has assigned
  \<^verbatim>\<open>self.game.solution_board\<close> before it looks at \<^verbatim>\<open>game_board\<close>: loading a file with
  no entries into the sample session leaves it without its solution.
\<close>

theorem load_game_without_board_drops_solution:
  "p_game_board no_board_payload = None \<and>
   solution_board (game demo_session) = Some (generate_sudoku demo_shuffles) \<and>
   load_game no_board_payload demo_session =
     (demo_session\<lparr>game := (game demo_session)\<lparr>solution_board := None\<rparr>\<rparr>, [CriticalMissingBoard]) \<and>
   solution_board (game (fst (load_game no_board_payload demo_session))) = None \<and>
   fst (load_game no_board_payload demo_session) \<noteq> demo_session"
proof -
  have l: "load_game no_board_payload demo_session =
     (demo_session\<lparr>game := (game demo_session)\<lparr>solution_board := None\<rparr>\<rparr>, [CriticalMissingBoard])"
    by (rule load_game_missing_board) (simp_all add: no_board_payload_def)
  have "solution_board (game (fst (load_game no_board_payload demo_session))) = None"
    by (simp add: l)
  then have "fst (load_game no_board_payload demo_session) \<noteq> demo_session"
    using demo_session_facts(2) by auto
  then show ?thesis
    using l demo_session_facts(2) by (simp add: no_board_payload_def)
qed

text \<open>
  What does hold: the error is shown, and the session is unchanged apart from its
  solution, which becomes the file's (or none).
\<close>

lemma load_game_missing_board_rest:
  assumes "p_game_board data = None"
    and "p_solution_board data = None \<or> (\<exists>sol. p_solution_board data = Some sol \<and> is_9x9 sol)"
  shows "load_game data s =
           (s\<lparr>game := (game s)\<lparr>solution_board := p_solution_board data\<rparr>\<rparr>, [CriticalMissingBoard])"
  using assms by (auto simp: load_game_def load_9x9_id)

subsection \<open>Decimal strings\<close>

lemma of_char_digit: "d < 10 \<Longrightarrow> (of_char (digit_char d) :: nat) = 48 + d"
proof -
  assume d: "d < 10"
  have "(of_char (digit_char d) :: nat) = (48 + d) mod 256"
    by (simp only: digit_char_def of_char_of)
  also have "\<dots> = 48 + d"
    using d by (intro mod_less) linarith
  finally show ?thesis .
qed

lemma digit_char_inj: "a < 10 \<Longrightarrow> b < 10 \<Longrightarrow> digit_char a = digit_char b \<Longrightarrow> a = b"
proof -
  assume "a < 10" and "b < 10" and "digit_char a = digit_char b"
  then have "48 + a = 48 + b"
    using of_char_digit [of a] of_char_digit [of b] by (simp only:)
  then show ?thesis by simp
qed

lemma digit_char_not_minus: "d < 10 \<Longrightarrow> digit_char d \<noteq> CHR ''-''"
proof
  assume "d < 10" and "digit_char d = CHR ''-''"
  then have "(of_char (CHR ''-'') :: nat) = 48 + d"
    using of_char_digit [of d] by simp
  then show False by simp
qed

lemma str_nat_not_empty: "str_nat n \<noteq> []"
  by (subst str_nat.simps) simp

lemma str_nat_digits: "c \<in> set (str_nat n) \<Longrightarrow> \<exists>d<10. c = digit_char d"
proof (induction n rule: str_nat.induct)
  case (1 n)
  show ?case
  proof (cases "n < 10")
    case True
    with "1.prems" show ?thesis
      by (subst (asm) str_nat.simps) auto
  next
    case False
    with "1.prems" have "c \<in> set (str_nat (n div 10)) \<or> c = digit_char (n mod 10)"
      by (subst (asm) str_nat.simps) auto
    then show ?thesis
    proof
      assume "c \<in> set (str_nat (n div 10))"
      with "1.IH" False show ?thesis by blast
    next
      assume "c = digit_char (n mod 10)"
      then show ?thesis by (intro exI [of _ "n mod 10"]) simp
    qed
  qed
qed

lemma str_nat_inj: "str_nat n = str_nat m \<Longrightarrow> n = m"
proof (induction n arbitrary: m rule: str_nat.induct)
  case (1 n)
  show ?case
  proof (cases "n < 10")
    case n: True
    show ?thesis
    proof (cases "m < 10")
      case True
      with n "1.prems" show ?thesis
        by (subst (asm) (1 2) str_nat.simps) (simp add: digit_char_inj)
    next
      case False
      have "str_nat m = str_nat (m div 10) @ [digit_char (m mod 10)]"
        using False by (subst str_nat.simps) simp
      moreover have "str_nat n = [digit_char n]"
        using n by (subst str_nat.simps) simp
      ultimately show ?thesis
        using "1.prems" str_nat_not_empty [of "m div 10"] by (simp add: Cons_eq_append_conv)
    qed
  next
    case n: False
    have sn: "str_nat n = str_nat (n div 10) @ [digit_char (n mod 10)]"
      using n by (subst str_nat.simps) simp
    show ?thesis
    proof (cases "m < 10")
      case True
      then have "str_nat m = [digit_char m]"
        by (subst str_nat.simps) simp
      with sn "1.prems" str_nat_not_empty [of "n div 10"] show ?thesis
        by (simp add: append_eq_Cons_conv)
    next
      case False
      then have "str_nat m = str_nat (m div 10) @ [digit_char (m mod 10)]"
        by (subst str_nat.simps) simp
      with sn "1.prems" have "str_nat (n div 10) = str_nat (m div 10)"
        and "digit_char (n mod 10) = digit_char (m mod 10)"
        by simp_all
      then have "n div 10 = m div 10" and "n mod 10 = m mod 10"
        using "1.IH" [OF n] by (simp_all add: digit_char_inj)
      then show ?thesis
        by (metis div_mult_mod_eq)
    qed
  qed
qed

lemma str_int_not_empty: "str_int i \<noteq> []"
  by (simp add: str_int_def str_nat_not_empty)

lemma str_nat_no_minus: "str_nat n \<noteq> CHR ''-'' # cs"
proof
  assume "str_nat n = CHR ''-'' # cs"
  then have "CHR ''-'' \<in> set (str_nat n)" by simp
  from str_nat_digits [OF this] show False
    using digit_char_not_minus by metis
qed

lemma str_int_inj: "str_int i = str_int j \<Longrightarrow> i = j"
proof -
  assume eq: "str_int i = str_int j"
  consider "i < 0" "j < 0" | "i < 0" "0 \<le> j" | "0 \<le> i" "j < 0" | "0 \<le> i" "0 \<le> j"
    by linarith
  then show ?thesis
  proof cases
    case 1
    with eq have "nat (- i) = nat (- j)"
      by (simp add: str_int_def str_nat_inj)
    with 1 show ?thesis by simp
  next
    case 2
    with eq have "str_nat (nat j) = CHR ''-'' # str_nat (nat (- i))"
      by (simp add: str_int_def)
    with str_nat_no_minus show ?thesis by blast
  next
    case 3
    with eq have "str_nat (nat i) = CHR ''-'' # str_nat (nat (- j))"
      by (simp add: str_int_def)
    with str_nat_no_minus show ?thesis by blast
  next
    case 4
    with eq have "nat i = nat j"
      by (simp add: str_int_def str_nat_inj)
    with 4 show ?thesis by simp
  qed
qed

text \<open>Comparing by \<^verbatim>\<open>str\<close> is comparing the numbers; an empty cell matches nothing.\<close>

lemma cell_matches_iff: "cell_matches b sol p \<longleftrightarrow> cell_at b p = Num (cell_at sol p)"
  using str_int_not_empty [of "cell_at sol p"]
  by (cases "cell_at b p") (auto simp: cell_matches_def dest: str_int_inj)

subsection \<open>Completion\<close>

lemma is_fully_solved_iff:
  "solution_board (game s) = Some sol \<Longrightarrow>
   is_fully_solved s \<longleftrightarrow> (\<forall>p \<in> set all_cells. cell_at (game_board (game s)) p = Num (cell_at sol p))"
  by (simp add: is_fully_solved_def list_all_iff cell_matches_iff)

lemma length_filter_all: "length (filter P xs) = length xs \<longleftrightarrow> (\<forall>x \<in> set xs. P x)"
proof
  assume len: "length (filter P xs) = length xs"
  show "\<forall>x \<in> set xs. P x"
  proof (rule ccontr)
    assume "\<not> (\<forall>x \<in> set xs. P x)"
    then obtain x where xin: "x \<in> set xs" and notP: "\<not> P x" by blast
    have "length (filter P xs) < length xs"
      using xin notP by (rule length_filter_less)
    with len show False by simp
  qed
next
  assume "\<forall>x \<in> set xs. P x"
  then show "length (filter P xs) = length xs" by simp
qed

lemma filled_count_81:
  "get_filled_count g = 81 \<longleftrightarrow> (\<forall>p \<in> set all_cells. cell_at (game_board g) p \<noteq> Blank)"
  using length_filter_all [of "\<lambda>p. cell_at (game_board g) p \<noteq> Blank" all_cells]
  by (simp add: get_filled_count_def length_all_cells)

text \<open>
  The handler of the "Check Solution" button agrees with \<open>is_fully_solved\<close> on every
  state that keeps the invariant of the immutable cells: the puzzle is solved exactly
  when the handler finds no incorrect cell and all 81 cells are filled.
\<close>

lemma check_solution_completion:
  assumes ok: "fixed_cells_ok s"
  shows "is_fully_solved s \<longleftrightarrow>
           (\<exists>res shown. check_solution s = Inr (res, [], shown)) \<and> get_filled_count (game s) = 81"
proof -
  obtain sol where sol: "solution_board (game s) = Some sol"
    using ok by (auto simp: fixed_cells_ok_def split: option.splits)
  note solved = is_fully_solved_iff [OF sol]
  show ?thesis
  proof
    assume s: "is_fully_solved s"
    then have "check_solution s = Inr (True, [], [InfoPerfect])"
      by (simp add: check_solution_def)
    moreover have "get_filled_count (game s) = 81"
      using s by (simp add: filled_count_81 solved)
    ultimately show "(\<exists>res shown. check_solution s = Inr (res, [], shown)) \<and> get_filled_count (game s) = 81"
      by blast
  next
    assume r: "(\<exists>res shown. check_solution s = Inr (res, [], shown)) \<and> get_filled_count (game s) = 81"
    show "is_fully_solved s"
    proof (rule ccontr)
      assume n: "\<not> is_fully_solved s"
      with r sol have "incorrect_cells (game s) sol = []"
        by (auto simp: check_solution_def Let_def)
      then have free: "\<forall>p \<in> set all_cells. p \<notin> immutable_cells (game s) \<longrightarrow>
          cell_at (game_board (game s)) p = Num (cell_at sol p)"
        by (auto simp: incorrect_cells_def filter_empty_conv cell_matches_iff)
      have "cell_at (game_board (game s)) p = Num (cell_at sol p)" if "p \<in> set all_cells" for p
        using free that fixed_cells_okD [OF ok sol, of p] by blast
      with n show False by (simp add: solved)
    qed
  qed
qed

text \<open>
  Claim C4: \<open>is_solved\<close> holds exactly when \<open>check\<close> returns no incorrect cell and all 81
  cells are filled. The method \<^verbatim>\<open>SudokuGame.check_solution\<close> cannot take part in this: it
  reads \<^verbatim>\<open>self.game.game_board\<close> on an object that has no attribute \<^verbatim>\<open>game\<close>, and so
  raises \<^verbatim>\<open>AttributeError\<close> as soon as one cell is not immutable. On the sample session
  (41 immutable cells, not solved) it raises, and it still raises once every masked
  cell holds the solution's value and \<open>is_fully_solved\<close> is true.
\<close>

theorem game_check_solution_raises:
  "game_check_solution (game demo_session) = Inl AttributeError \<and>
   \<not> is_fully_solved demo_session \<and>
   get_filled_count (game demo_session) = 41 \<and>
   is_fully_solved
     (demo_session\<lparr>game := (game demo_session)\<lparr>game_board := map (map Num) (generate_sudoku demo_shuffles)\<rparr>\<rparr>) \<and>
   game_check_solution
     ((game demo_session)\<lparr>game_board := map (map Num) (generate_sudoku demo_shuffles)\<rparr>)
     = Inl AttributeError"
  by code_simp

lemma game_check_solution_cases:
  "game_check_solution g = (if set all_cells \<subseteq> immutable_cells g then Inr True else Inl AttributeError)"
  by (auto simp: game_check_solution_def list_all_iff)

end
